theory Spec2Isabelle
  imports Main "HOL-Library.List_Lexorder"
begin

section \<open>Contact-point utilities of the unified alerting UI\<close>

text \<open>
  A shallow embedding of
  \<^verbatim>\<open>public/app/features/alerting/unified/components/contact-points/utils.ts\<close>.
  JavaScript strings are modelled as \<^typ>\<open>string\<close>: a \<^typ>\<open>char\<close> is a UTF-16 code unit
  below 256, so the model covers the strings of ISO 8859-1 characters. An
  optional property is an \<^typ>\<open>'a option\<close> (\<open>None\<close> is \<^verbatim>\<open>undefined\<close>), an array is a
  list. Functions and constants that the file imports from other modules are parameters
  of the model, collected in the record \<open>externals\<close>.
\<close>

subsection \<open>JavaScript values\<close>

text \<open>Truthiness of an optional string: \<^verbatim>\<open>undefined\<close> and \<^verbatim>\<open>''\<close> are falsy.\<close>

definition truthy :: "string option \<Rightarrow> bool" where
  "truthy v = (case v of None \<Rightarrow> False | Some s \<Rightarrow> s \<noteq> [])"

text \<open>The operator \<^verbatim>\<open>a || b\<close> on optional strings.\<close>

definition js_or :: "string option \<Rightarrow> string option \<Rightarrow> string option" where
  "js_or a b = (if truthy a then a else b)"

text \<open>
  The property names that every plain object inherits from \<^verbatim>\<open>Object.prototype\<close>
  (ECMAScript 2023, sections 20.1.3 and B.2.2). A property read \<^verbatim>\<open>obj[k]\<close> on a plain
  object that has no own property \<open>k\<close> returns the inherited member for these names and
  \<^verbatim>\<open>undefined\<close> for every other name.
\<close>

definition Object_prototype_keys :: "string list" where
  "Object_prototype_keys =
     [''constructor'', ''hasOwnProperty'', ''isPrototypeOf'', ''propertyIsEnumerable'',
      ''toLocaleString'', ''toString'', ''valueOf'', ''__proto__'',
      ''__defineGetter__'', ''__defineSetter__'', ''__lookupGetter__'', ''__lookupSetter__'']"

subsection \<open>Policy tree\<close>

text \<open>
  Modelled from the spec: the enumeration \<^verbatim>\<open>MatcherOperator\<close> is declared in
  \<^verbatim>\<open>app/plugins/datasource/alertmanager/types\<close>, outside the source file; the spec names
  its member "equals", the others are the remaining Alertmanager operators.
\<close>

datatype MatcherOperator = equal | notEqual | regex | notRegex

type_synonym ObjectMatcher = "string \<times> MatcherOperator \<times> string"

text \<open>A \<^verbatim>\<open>Route\<close>, with the three properties this module reads.\<close>

datatype Route = Route
  (receiver: "string option")
  (object_matchers: "ObjectMatcher list option")
  (routes: "Route list option")

datatype RouteType = auto_generated | normal

record RouteReferenceRoute =
  type :: RouteType

record RouteReference =
  receiver :: string
  route :: RouteReferenceRoute

definition AUTOGENERATED_RECEIVER_POLICY_MATCHER_KEY :: string where
  "AUTOGENERATED_RECEIVER_POLICY_MATCHER_KEY = ''__grafana_receiver__''"

text \<open>
  \<^verbatim>\<open>isAutoGeneratedPolicy\<close>. Its first argument is the value of
  \<^verbatim>\<open>config.featureToggles.alertingSimplifiedRouting\<close>, which the source reads from the
  runtime configuration.
\<close>

definition isAutoGeneratedPolicy :: "bool option \<Rightarrow> Route \<Rightarrow> bool" where
  "isAutoGeneratedPolicy alertingSimplifiedRouting r =
     (let simplifiedRoutingToggleEnabled =
            (case alertingSimplifiedRouting of None \<Rightarrow> False | Some b \<Rightarrow> b)
      in if \<not> simplifiedRoutingToggleEnabled then False
         else (case object_matchers r of
                 None \<Rightarrow> False
               | Some matchers \<Rightarrow>
                   list_ex (\<lambda>objectMatcher.
                       fst objectMatcher = AUTOGENERATED_RECEIVER_POLICY_MATCHER_KEY
                     \<and> fst (snd objectMatcher) = equal) matchers))"

text \<open>\<^verbatim>\<open>getUsedContactPoints\<close>; \<^verbatim>\<open>flatMap\<close> is \<open>concat\<close> of \<open>map\<close>.\<close>

fun getUsedContactPoints :: "bool option \<Rightarrow> Route \<Rightarrow> RouteReference list" where
  "getUsedContactPoints toggle (Route rcv matchers children) =
     (let childrenContactPoints =
            (case children of
               None \<Rightarrow> []
             | Some rs \<Rightarrow> concat (map (getUsedContactPoints toggle) rs))
      in case rcv of
           None \<Rightarrow> childrenContactPoints
         | Some r \<Rightarrow>
             if r \<noteq> [] then
               \<lparr> RouteReference.receiver = r,
                 RouteReference.route =
                   \<lparr> RouteReferenceRoute.type =
                       (if isAutoGeneratedPolicy toggle (Route rcv matchers children)
                        then auto_generated else normal) \<rparr> \<rparr>
               # childrenContactPoints
             else childrenContactPoints)"

text \<open>
  The vocabulary of the specification of the collector: the nodes of a tree in pre-order,
  the nodes that carry a receiver, and the reference a node stands for.
\<close>

fun nodes_preorder :: "Route \<Rightarrow> Route list" where
  "nodes_preorder (Route rcv matchers children) =
     Route rcv matchers children
     # (case children of None \<Rightarrow> [] | Some rs \<Rightarrow> concat (map nodes_preorder rs))"

definition has_receiver :: "Route \<Rightarrow> bool" where
  "has_receiver node = truthy (Route.receiver node)"

definition reference_of :: "bool option \<Rightarrow> Route \<Rightarrow> RouteReference" where
  "reference_of toggle node =
     \<lparr> RouteReference.receiver = (case Route.receiver node of None \<Rightarrow> [] | Some r \<Rightarrow> r),
       RouteReference.route =
         \<lparr> RouteReferenceRoute.type =
             (if isAutoGeneratedPolicy toggle node then auto_generated else normal) \<rparr> \<rparr>"

subsection \<open>Strings\<close>

text \<open>
  White space as \<^verbatim>\<open>String.prototype.trim\<close> and lodash's \<^verbatim>\<open>trim\<close> see it. Among the code
  units below 256 these are tab, line feed, vertical tab, form feed, carriage return,
  space and the no-break space U+00A0.
\<close>

definition is_whitespace :: "char \<Rightarrow> bool" where
  "is_whitespace c =
     (c = CHR 0x09 \<or> c = CHR 0x0A \<or> c = CHR 0x0B \<or> c = CHR 0x0C \<or> c = CHR 0x0D \<or> c = CHR 0x20
      \<or> c = CHR 0xA0)"

definition trim :: "string \<Rightarrow> string" where
  "trim s = rev (dropWhile is_whitespace (rev (dropWhile is_whitespace s)))"

text \<open>
  \<^verbatim>\<open>s.split(/,|;|\n+/g)\<close>: the pieces of \<open>s\<close> between the matches of the pattern. A match
  is one comma, one semicolon or a maximal run of line feeds; empty pieces are kept, and
  a string without a match is its own single piece.
\<close>

function split_SUPPORTED_SEPARATORS :: "string \<Rightarrow> string list" where
  "split_SUPPORTED_SEPARATORS [] = [[]]"
| "split_SUPPORTED_SEPARATORS (c # cs) =
     (if c = CHR '','' \<or> c = CHR '';'' then [] # split_SUPPORTED_SEPARATORS cs
      else if c = CHR 0x0A
        then [] # split_SUPPORTED_SEPARATORS (dropWhile (\<lambda>d. d = CHR 0x0A) cs)
      else (case split_SUPPORTED_SEPARATORS cs of
              [] \<Rightarrow> [[c]]
            | piece # pieces \<Rightarrow> (c # piece) # pieces))"
  by pat_completeness auto
termination
  by (relation "measure length") (auto simp: length_dropWhile_le less_Suc_eq_le)

text \<open>\<^verbatim>\<open>xs.join(sep)\<close>.\<close>

fun join :: "string \<Rightarrow> string list \<Rightarrow> string" where
  "join sep [] = []"
| "join sep [x] = x"
| "join sep (x # y # ys) = x @ sep @ join sep (y # ys)"

text \<open>lodash's \<^verbatim>\<open>difference(array, values)\<close>: the elements of \<open>array\<close>, in order and with
  their repetitions, that do not occur in \<open>values\<close>.\<close>

fun difference :: "'a list \<Rightarrow> 'a list \<Rightarrow> 'a list" where
  "difference [] values = []"
| "difference (x # xs) values =
     (if List.member values x then difference xs values else x # difference xs values)"

text \<open>The decimal numeral of a number, as a template literal prints it.\<close>

definition digit_char :: "nat \<Rightarrow> char" where
  "digit_char d = char_of (48 + d)"

function string_of_nat :: "nat \<Rightarrow> string" where
  "string_of_nat n =
     (if n < 10 then [digit_char n] else string_of_nat (n div 10) @ [digit_char (n mod 10)])"
  by pat_completeness auto
termination
  by (relation "measure id") auto

declare string_of_nat.simps [simp del]

subsection \<open>Receiver descriptions\<close>

text \<open>\<^verbatim>\<open>summarizeEmailAddresses\<close>; lodash's \<^verbatim>\<open>take\<close> is \<^const>\<open>take\<close>.\<close>

definition summarizeEmailAddresses :: "string \<Rightarrow> string" where
  "summarizeEmailAddresses addresses =
     (let MAX_ADDRESSES_SHOWN = 3;
          emails = map trim (split_SUPPORTED_SEPARATORS (trim addresses));
          summary = take MAX_ADDRESSES_SHOWN emails;
          rest = difference emails summary;
          summary' = (if length rest \<noteq> 0
                      then summary @ [''+'' @ string_of_nat (length rest) @ '' more'']
                      else summary)
      in join '', '' summary')"

text \<open>The local \<^verbatim>\<open>emails\<close> of \<^verbatim>\<open>summarizeEmailAddresses\<close>.\<close>

definition parsed_addresses :: "string \<Rightarrow> string list" where
  "parsed_addresses addresses = map trim (split_SUPPORTED_SEPARATORS (trim addresses))"

text \<open>
  A \<^verbatim>\<open>GrafanaManagedReceiverConfig\<close>: its type tag, its optional settings (a mapping from
  setting names to strings) and, in \<open>rest\<close>, all its other properties.
\<close>

record 'r GrafanaManagedReceiverConfig =
  type :: string
  settings :: "(string \<rightharpoonup> string) option"
  rest :: 'r

text \<open>The value under \<^verbatim>\<open>RECEIVER_META_KEY\<close>.\<close>

record NotifierMetadata =
  name :: string
  description :: "string option"

text \<open>
  Modelled from the spec: \<^verbatim>\<open>ReceiverPluginMetadata\<close> is declared in
  \<^verbatim>\<open>useReceiversMetadata\<close>, outside the source file; this module reads its optional
  description field only.
\<close>

record ReceiverPluginMetadata =
  description :: "string option"

text \<open>
  \<^verbatim>\<open>ReceiverConfigWithMetadata\<close> extends the receiver config by the three properties
  keyed by the symbols of \<^verbatim>\<open>./constants\<close>; \<open>'s\<close> is the type \<^verbatim>\<open>NotifierStatus\<close>.
\<close>

record ('r, 's) ReceiverConfigWithMetadata = "'r GrafanaManagedReceiverConfig" +
  RECEIVER_STATUS_KEY :: "'s option"
  RECEIVER_META_KEY :: NotifierMetadata
  RECEIVER_PLUGIN_META_KEY :: "ReceiverPluginMetadata option"

text \<open>\<^verbatim>\<open>recipient.replace(/^#/, '')\<close>.\<close>

definition strip_leading_hash :: "string \<Rightarrow> string" where
  "strip_leading_hash s = (case s of [] \<Rightarrow> [] | c # cs \<Rightarrow> if c = CHR ''#'' then cs else c # cs)"

text \<open>
  \<^verbatim>\<open>getReceiverDescription\<close>. The first argument is the constant
  \<^verbatim>\<open>ReceiverTypes.OnCall\<close>, declared outside the source file. The cases of the
  \<^verbatim>\<open>switch\<close> are tried in the order of the source.
\<close>

definition getReceiverDescription ::
  "string \<Rightarrow> ('r, 's) ReceiverConfigWithMetadata \<Rightarrow> string option" where
  "getReceiverDescription OnCall rc =
     (case settings rc of
        None \<Rightarrow> None
      | Some stg \<Rightarrow>
          if GrafanaManagedReceiverConfig.type rc = ''email'' then
            (let addresses = js_or (stg ''addresses'') (stg ''to'')
             in case addresses of
                  None \<Rightarrow> None
                | Some a \<Rightarrow> if a \<noteq> [] then Some (summarizeEmailAddresses a) else None)
          else if GrafanaManagedReceiverConfig.type rc = ''slack'' then
            (let recipient = js_or (stg ''recipient'') (stg ''channel'')
             in case recipient of
                  None \<Rightarrow> None
                | Some rcp \<Rightarrow>
                    if rcp = [] then None
                    else (let channelName = strip_leading_hash rcp
                          in Some (''#'' @ channelName)))
          else if GrafanaManagedReceiverConfig.type rc = ''kafka'' then stg ''kafkaTopic''
          else if GrafanaManagedReceiverConfig.type rc = ''webhook'' then stg ''url''
          else if GrafanaManagedReceiverConfig.type rc = OnCall then
            (case RECEIVER_PLUGIN_META_KEY rc of
               None \<Rightarrow> None
             | Some pluginMetadata \<Rightarrow> ReceiverPluginMetadata.description pluginMetadata)
          else NotifierMetadata.description (RECEIVER_META_KEY rc))"

subsection \<open>Contact-point enrichment\<close>

record NotifierDTO =
  type :: string
  name :: string
  description :: string

text \<open>A \<^verbatim>\<open>ReceiversStateDTO\<close>: the name of a contact point and the status of each of its
  integrations, by position.\<close>

record 's ReceiversStateDTO =
  name :: string
  integrations :: "'s list"

text \<open>
  A contact point of the input (\<^verbatim>\<open>Receiver\<close>): the properties this module reads, and in
  \<open>rest\<close> all its other properties.
\<close>

record ('r, 'o) Receiver =
  name :: string
  id :: "string option"
  grafana_managed_receiver_configs :: "'r GrafanaManagedReceiverConfig list option"
  rest :: 'o

record AlertmanagerConfig =
  route :: "Route option"

record AlertManagerCortexConfig =
  alertmanager_config :: "AlertmanagerConfig option"

text \<open>
  What the expression for \<^verbatim>\<open>policies\<close> can evaluate to when a configuration is supplied:
  a list of route references, or a member that the grouping object inherits from
  \<^verbatim>\<open>Object.prototype\<close> (named by its key).
\<close>

datatype policies_value =
  RouteReferences "RouteReference list"
| Object_prototype_member string

record ('r, 's, 'o) ContactPointWithMetadata =
  name :: string
  id :: string
  policies :: "policies_value option"
  grafana_managed_receiver_configs :: "('r, 's) ReceiverConfigWithMetadata list"
  rest :: 'o

text \<open>\<^verbatim>\<open>EnhanceContactPointsArgs\<close>; \<open>'ic\<close> is the type of the argument
  \<^verbatim>\<open>onCallIntegrations\<close>, which the function only passes on.\<close>

record ('r, 's, 'o, 'ic) EnhanceContactPointsArgs =
  status :: "'s ReceiversStateDTO list option"
  notifiers :: "NotifierDTO list option"
  onCallIntegrations :: 'ic
  contactPoints :: "('r, 'o) Receiver list"
  alertmanagerConfiguration :: "AlertManagerCortexConfig option"

text \<open>
  The functions and constants that the source imports from other modules:
  \<^verbatim>\<open>computeInheritedTree\<close>, \<^verbatim>\<open>extractReceivers\<close>, \<^verbatim>\<open>getOnCallMetadata\<close>, the string
  comparison \<^verbatim>\<open>String.prototype.localeCompare\<close>, the constant \<^verbatim>\<open>ReceiverTypes.OnCall\<close>,
  the feature toggle \<^verbatim>\<open>config.featureToggles.alertingSimplifiedRouting\<close>, and lodash's
  \<^verbatim>\<open>upperFirst\<close>, whose result depends on the case mappings of Unicode.
\<close>

record ('r, 'o, 'ic) externals =
  computeInheritedTree :: "Route \<Rightarrow> Route"
  extractReceivers :: "('r, 'o) Receiver \<Rightarrow> 'r GrafanaManagedReceiverConfig list"
  getOnCallMetadata :: "'ic \<Rightarrow> 'r GrafanaManagedReceiverConfig \<Rightarrow> bool \<Rightarrow> ReceiverPluginMetadata"
  localeCompare :: "string \<Rightarrow> string \<Rightarrow> int"
  ReceiverTypes_OnCall :: string
  alertingSimplifiedRouting :: "bool option"
  upperFirst :: "string \<Rightarrow> string"

text \<open>\<^verbatim>\<open>getNotifierMetadata\<close>; its first argument is \<^verbatim>\<open>upperFirst\<close>.\<close>

definition getNotifierMetadata ::
  "(string \<Rightarrow> string) \<Rightarrow> NotifierDTO list \<Rightarrow> 'r GrafanaManagedReceiverConfig \<Rightarrow>
   NotifierMetadata" where
  "getNotifierMetadata upper ns rc =
     (let match = find (\<lambda>notifier. NotifierDTO.type notifier =
                                    GrafanaManagedReceiverConfig.type rc) ns
      in \<lparr> NotifierMetadata.name =
             (case match of
                None \<Rightarrow> upper (GrafanaManagedReceiverConfig.type rc)
              | Some m \<Rightarrow> NotifierDTO.name m),
           NotifierMetadata.description = map_option NotifierDTO.description match \<rparr>)"

text \<open>
  lodash's \<^verbatim>\<open>groupBy\<close>: starting from the empty object, each element is appended to the
  group of its key, a new group being created for a key seen for the first time.
\<close>

definition groupBy :: "('a \<Rightarrow> string) \<Rightarrow> 'a list \<Rightarrow> (string \<rightharpoonup> 'a list)" where
  "groupBy iteratee collection =
     foldl (\<lambda>result v.
              case result (iteratee v) of
                Some members \<Rightarrow> result(iteratee v \<mapsto> members @ [v])
              | None \<Rightarrow> result(iteratee v \<mapsto> [v]))
           Map.empty collection"

text \<open>
  \<^verbatim>\<open>usedContactPointsByName[name] ?? []\<close>. The grouping is a plain object, so a name
  without a group reads the member inherited from \<^verbatim>\<open>Object.prototype\<close> if there is one;
  such a member is neither \<^verbatim>\<open>null\<close> nor \<^verbatim>\<open>undefined\<close>, and \<^verbatim>\<open>??\<close> keeps it.
\<close>

definition lookup_policies :: "(string \<rightharpoonup> RouteReference list) \<Rightarrow> string \<Rightarrow> policies_value" where
  "lookup_policies usedContactPointsByName k =
     (case usedContactPointsByName k of
        Some refs \<Rightarrow> RouteReferences refs
      | None \<Rightarrow>
          if List.member Object_prototype_keys k then Object_prototype_member k
          else RouteReferences [])"

text \<open>
  \<^verbatim>\<open>Array.prototype.sort\<close> with a comparison function. ECMAScript requires the sort to be
  stable. The model inserts the elements, from the last to the first, each before the
  first element that it does not compare greater than; lemma \<open>array_sort_unique\<close> below
  shows that every stable sort returns the same list.
\<close>

fun sort_insert :: "('a \<Rightarrow> 'a \<Rightarrow> int) \<Rightarrow> 'a \<Rightarrow> 'a list \<Rightarrow> 'a list" where
  "sort_insert cmp x [] = [x]"
| "sort_insert cmp x (y # ys) =
     (if cmp x y \<le> 0 then x # y # ys else y # sort_insert cmp x ys)"

fun array_sort :: "('a \<Rightarrow> 'a \<Rightarrow> int) \<Rightarrow> 'a list \<Rightarrow> 'a list" where
  "array_sort cmp [] = []"
| "array_sort cmp (x # xs) = sort_insert cmp x (array_sort cmp xs)"

text \<open>The callback of \<^verbatim>\<open>receivers.map\<close>: one receiver config with its metadata.\<close>

definition enhanceReceiver ::
  "('r, 'o, 'ic) externals \<Rightarrow> NotifierDTO list \<Rightarrow> 'ic \<Rightarrow> AlertManagerCortexConfig option \<Rightarrow>
   's ReceiversStateDTO option \<Rightarrow> nat \<times> 'r GrafanaManagedReceiverConfig \<Rightarrow>
   ('r, 's) ReceiverConfigWithMetadata" where
  "enhanceReceiver ext ns oc amc statusForReceiver p =
     (let index = fst p; rc = snd p;
          isOnCallReceiver = (GrafanaManagedReceiverConfig.type rc = ReceiverTypes_OnCall ext)
      in \<lparr> GrafanaManagedReceiverConfig.type = GrafanaManagedReceiverConfig.type rc,
           GrafanaManagedReceiverConfig.settings = GrafanaManagedReceiverConfig.settings rc,
           GrafanaManagedReceiverConfig.rest = GrafanaManagedReceiverConfig.rest rc,
           RECEIVER_STATUS_KEY =
             (case statusForReceiver of
                None \<Rightarrow> None
              | Some st \<Rightarrow>
                  if index < length (integrations st) then Some (integrations st ! index)
                  else None),
           RECEIVER_META_KEY = getNotifierMetadata (upperFirst ext) ns rc,
           RECEIVER_PLUGIN_META_KEY =
             (if isOnCallReceiver then Some (getOnCallMetadata ext oc rc (amc \<noteq> None))
              else None) \<rparr>)"

text \<open>The callback of \<^verbatim>\<open>contactPoints.map\<close>: one contact point with its metadata.\<close>

definition enhanceContactPoint ::
  "('r, 'o, 'ic) externals \<Rightarrow> 's ReceiversStateDTO list \<Rightarrow> NotifierDTO list \<Rightarrow> 'ic \<Rightarrow>
   AlertManagerCortexConfig option \<Rightarrow> (string \<rightharpoonup> RouteReference list) \<Rightarrow>
   ('r, 'o) Receiver \<Rightarrow> ('r, 's, 'o) ContactPointWithMetadata" where
  "enhanceContactPoint ext sts ns oc amc usedContactPointsByName contactPoint =
     (let receivers = extractReceivers ext contactPoint;
          statusForReceiver =
            find (\<lambda>st. ReceiversStateDTO.name st = Receiver.name contactPoint) sts;
          id = (case Receiver.id contactPoint of
                  None \<Rightarrow> Receiver.name contactPoint
                | Some i \<Rightarrow> if i \<noteq> [] then i else Receiver.name contactPoint)
      in \<lparr> ContactPointWithMetadata.name = Receiver.name contactPoint,
           ContactPointWithMetadata.id = id,
           ContactPointWithMetadata.policies =
             (case amc of
                None \<Rightarrow> None
              | Some c \<Rightarrow>
                  Some (lookup_policies usedContactPointsByName (Receiver.name contactPoint))),
           ContactPointWithMetadata.grafana_managed_receiver_configs =
             map (enhanceReceiver ext ns oc amc statusForReceiver) (enumerate 0 receivers),
           ContactPointWithMetadata.rest = Receiver.rest contactPoint \<rparr>)"

text \<open>The route handed to \<^verbatim>\<open>computeInheritedTree\<close>:
  \<^verbatim>\<open>alertmanagerConfiguration?.alertmanager_config?.route ?? {}\<close>.\<close>

definition configured_route :: "AlertManagerCortexConfig option \<Rightarrow> Route" where
  "configured_route amc =
     (case amc of
        None \<Rightarrow> Route None None None
      | Some c \<Rightarrow>
          (case alertmanager_config c of
             None \<Rightarrow> Route None None None
           | Some ac \<Rightarrow>
               (case AlertmanagerConfig.route ac of
                  None \<Rightarrow> Route None None None
                | Some r \<Rightarrow> r)))"

text \<open>
  \<^verbatim>\<open>enhanceContactPointsWithMetadata\<close>, in two steps: the array \<^verbatim>\<open>enhanced\<close> that the
  function builds, and the sorted array that it returns.
\<close>

definition enhanced ::
  "('r, 'o, 'ic) externals \<Rightarrow> ('r, 's, 'o, 'ic) EnhanceContactPointsArgs \<Rightarrow>
   ('r, 's, 'o) ContactPointWithMetadata list" where
  "enhanced ext args =
     (let status = (case EnhanceContactPointsArgs.status args of None \<Rightarrow> [] | Some s \<Rightarrow> s);
          notifiers = (case EnhanceContactPointsArgs.notifiers args of None \<Rightarrow> [] | Some n \<Rightarrow> n);
          fullyInheritedTree =
            computeInheritedTree ext (configured_route (alertmanagerConfiguration args));
          usedContactPoints =
            getUsedContactPoints (alertingSimplifiedRouting ext) fullyInheritedTree;
          usedContactPointsByName = groupBy RouteReference.receiver usedContactPoints
      in map (enhanceContactPoint ext status notifiers (onCallIntegrations args)
                (alertmanagerConfiguration args) usedContactPointsByName)
             (contactPoints args))"

definition enhanceContactPointsWithMetadata ::
  "('r, 'o, 'ic) externals \<Rightarrow> ('r, 's, 'o, 'ic) EnhanceContactPointsArgs \<Rightarrow>
   ('r, 's, 'o) ContactPointWithMetadata list" where
  "enhanceContactPointsWithMetadata ext args =
     array_sort (\<lambda>a b. localeCompare ext (ContactPointWithMetadata.name a)
                                           (ContactPointWithMetadata.name b))
                (enhanced ext args)"

subsection \<open>The specification of the email summary\<close>

text \<open>
  The definitions of this subsection follow the words of the specification and use none
  of the definitions above. White space is the set of characters that trimming removes.
\<close>

definition spec_white_space :: "char \<Rightarrow> bool" where
  "spec_white_space c \<longleftrightarrow>
     c \<in> set [CHR 0x09, CHR 0x0A, CHR 0x0B, CHR 0x0C, CHR 0x0D, CHR 0x20, CHR 0xA0]"

text \<open>A string without its leading and its trailing run of white space.\<close>

definition spec_trimmed :: "string \<Rightarrow> string" where
  "spec_trimmed s =
     (let body = drop (length (takeWhile spec_white_space s)) s
      in take (length body - length (takeWhile spec_white_space (rev body))) body)"

text \<open>
  The addresses of a string are separated by a comma, a semicolon or one or more line
  feeds: a run of line feeds counts as one line feed, and the string is cut at every
  comma, semicolon and line feed; every piece is trimmed. (The list of pieces that
  \<open>spec_split_at\<close> builds is never empty.)
\<close>

definition spec_squeeze_line_feeds :: "string \<Rightarrow> string" where
  "spec_squeeze_line_feeds s =
     foldr (\<lambda>c acc. if c = CHR 0x0A \<and> take 1 acc = [CHR 0x0A] then acc else c # acc) s []"

definition spec_split_at :: "(char \<Rightarrow> bool) \<Rightarrow> string \<Rightarrow> string list" where
  "spec_split_at P s =
     foldr (\<lambda>c acc. if P c then [] # acc else (c # hd acc) # tl acc) s [[]]"

definition spec_addresses :: "string \<Rightarrow> string list" where
  "spec_addresses s =
     map spec_trimmed
       (spec_split_at (\<lambda>c. c \<in> set [CHR '','', CHR '';'', CHR 0x0A])
          (spec_squeeze_line_feeds (spec_trimmed s)))"

text \<open>The number of addresses whose value is not among the first three.\<close>

definition spec_rest_count :: "string \<Rightarrow> nat" where
  "spec_rest_count s =
     length (filter (\<lambda>e. e \<notin> set (take 3 (spec_addresses s))) (spec_addresses s))"

text \<open>The segments of a summary, each but the first after a comma and a space.\<close>

definition spec_joined :: "string list \<Rightarrow> string" where
  "spec_joined xs = (case xs of [] \<Rightarrow> [] | x # ys \<Rightarrow> x @ concat (map (\<lambda>y. '', '' @ y) ys))"

text \<open>
  The number that a string of decimal digits denotes, and the decimal numeral of a
  number: a non-empty string of digits that denotes it, without a leading zero unless it
  is the single digit zero.
\<close>

definition decimal_value :: "string \<Rightarrow> nat" where
  "decimal_value s = foldl (\<lambda>v c. 10 * v + (of_char c - 48)) 0 s"

definition spec_decimal_numeral :: "string \<Rightarrow> nat \<Rightarrow> bool" where
  "spec_decimal_numeral d n \<longleftrightarrow>
     d \<noteq> [] \<and> list_all (\<lambda>c. c \<in> set ''0123456789'') d
     \<and> (take 1 d \<noteq> ''0'' \<or> d = ''0'') \<and> decimal_value d = n"

subsection \<open>The specification of the description of a slack receiver\<close>

text \<open>A setting of a receiver config; it is absent when the settings are.\<close>

definition setting_of ::
  "('r, 'z) GrafanaManagedReceiverConfig_scheme \<Rightarrow> string \<Rightarrow> string option" where
  "setting_of rc k =
     (case GrafanaManagedReceiverConfig.settings rc of None \<Rightarrow> None | Some stg \<Rightarrow> stg k)"

text \<open>
  The description in the words of the specification, from the fields of the receiver: the
  recipient is read from the primary field or, if that is absent, from the channel field;
  if neither is present there is no description; otherwise one leading \<^verbatim>\<open>#\<close> is stripped
  and a single \<^verbatim>\<open>#\<close> is put in front.
\<close>

definition spec_slack_description :: "(string \<Rightarrow> string option) \<Rightarrow> string option" where
  "spec_slack_description field =
     (case (case field ''recipient'' of Some r \<Rightarrow> Some r | None \<Rightarrow> field ''channel'') of
        None \<Rightarrow> None
      | Some r \<Rightarrow> Some (''#'' @ (if take 1 r = ''#'' then drop 1 r else r)))"

text \<open>The fields with every empty string taken for an absent field.\<close>

definition nonempty_fields :: "(string \<Rightarrow> string option) \<Rightarrow> string \<Rightarrow> string option" where
  "nonempty_fields field k = (if field k = Some [] then None else field k)"

subsection \<open>Inputs of the examples\<close>

text \<open>
  A collation for the examples, in the place of \<^verbatim>\<open>localeCompare\<close>: ASCII text compared
  letter by letter without regard to case.
\<close>

definition caseless_key :: "string \<Rightarrow> nat list" where
  "caseless_key s =
     map (\<lambda>c. if 65 \<le> (of_char c :: nat) \<and> (of_char c :: nat) \<le> 90
              then (of_char c :: nat) + 32 else of_char c) s"

definition caseless_compare :: "string \<Rightarrow> string \<Rightarrow> int" where
  "caseless_compare a b =
     (if caseless_key a < caseless_key b then - 1
      else if caseless_key b < caseless_key a then 1 else 0)"

text \<open>An \<^verbatim>\<open>upperFirst\<close> for the examples: it upper-cases an ASCII first letter.\<close>

definition ascii_upperFirst :: "string \<Rightarrow> string" where
  "ascii_upperFirst s =
     (case s of
        [] \<Rightarrow> []
      | c # cs \<Rightarrow>
          (if 97 \<le> (of_char c :: nat) \<and> (of_char c :: nat) \<le> 122
           then char_of ((of_char c :: nat) - 32) else c) # cs)"

text \<open>
  The externals of the examples: a tree that is inherited unchanged (as a root without
  children is), the receivers of a contact point read from its
  \<^verbatim>\<open>grafana_managed_receiver_configs\<close>, and the collation and \<^verbatim>\<open>upperFirst\<close> above.
\<close>

abbreviation example_externals :: "(unit, unit, unit) externals" where
  "example_externals \<equiv>
     \<lparr> computeInheritedTree = (\<lambda>r. r),
       extractReceivers =
         (\<lambda>cp. case Receiver.grafana_managed_receiver_configs cp of None \<Rightarrow> [] | Some cs \<Rightarrow> cs),
       getOnCallMetadata = (\<lambda>oc rc hasConfig. \<lparr> ReceiverPluginMetadata.description = None \<rparr>),
       localeCompare = caseless_compare,
       ReceiverTypes_OnCall = ''oncall'',
       alertingSimplifiedRouting = None,
       upperFirst = ascii_upperFirst \<rparr>"

text \<open>A slack receiver with the given settings.\<close>

abbreviation example_slack_receiver ::
  "(string \<rightharpoonup> string) option \<Rightarrow> (unit, unit) ReceiverConfigWithMetadata" where
  "example_slack_receiver stg \<equiv>
     \<lparr> GrafanaManagedReceiverConfig.type = ''slack'',
       GrafanaManagedReceiverConfig.settings = stg,
       GrafanaManagedReceiverConfig.rest = (),
       RECEIVER_STATUS_KEY = None,
       RECEIVER_META_KEY =
         \<lparr> NotifierMetadata.name = ''Slack'', NotifierMetadata.description = None \<rparr>,
       RECEIVER_PLUGIN_META_KEY = None \<rparr>"

text \<open>A contact point with one email receiver, and arguments without status and notifiers.\<close>

abbreviation example_contact_point :: "string \<Rightarrow> string option \<Rightarrow> (unit, unit) Receiver" where
  "example_contact_point n i \<equiv>
     \<lparr> Receiver.name = n, Receiver.id = i,
       Receiver.grafana_managed_receiver_configs =
         Some [\<lparr> GrafanaManagedReceiverConfig.type = ''email'',
                 GrafanaManagedReceiverConfig.settings = Some [''addresses'' \<mapsto> ''a@x.com''],
                 GrafanaManagedReceiverConfig.rest = () \<rparr>],
       Receiver.rest = () \<rparr>"

abbreviation example_args ::
  "(unit, unit) Receiver list \<Rightarrow> AlertManagerCortexConfig option \<Rightarrow>
   (unit, unit, unit, unit) EnhanceContactPointsArgs" where
  "example_args cps amc \<equiv>
     \<lparr> EnhanceContactPointsArgs.status = None,
       EnhanceContactPointsArgs.notifiers = None,
       onCallIntegrations = (),
       contactPoints = cps,
       alertmanagerConfiguration = amc \<rparr>"

subsection \<open>Properties of the policy tree\<close>

lemma has_receiver_Route:
  "has_receiver (Route rcv matchers children) =
     (case rcv of None \<Rightarrow> False | Some r \<Rightarrow> r \<noteq> [])"
  by (simp add: has_receiver_def truthy_def)

lemma reference_of_Some:
  "reference_of toggle (Route (Some r) matchers children) =
     \<lparr> RouteReference.receiver = r,
       RouteReference.route =
         \<lparr> RouteReferenceRoute.type =
             (if isAutoGeneratedPolicy toggle (Route (Some r) matchers children)
              then auto_generated else normal) \<rparr> \<rparr>"
  by (simp add: reference_of_def)

lemma getUsedContactPoints_preorder:
  "getUsedContactPoints toggle node =
     map (reference_of toggle) (filter has_receiver (nodes_preorder node))"
proof (induction toggle node rule: getUsedContactPoints.induct)
  case (1 toggle rcv matchers children)
  have kids: "(case children of None \<Rightarrow> []
               | Some rs \<Rightarrow> concat (map (getUsedContactPoints toggle) rs)) =
              map (reference_of toggle) (filter has_receiver
                (case children of None \<Rightarrow> [] | Some rs \<Rightarrow> concat (map nodes_preorder rs)))"
  proof (cases children)
    case None
    then show ?thesis by simp
  next
    case (Some rs)
    have "\<And>x. x \<in> set rs \<Longrightarrow> getUsedContactPoints toggle x =
            map (reference_of toggle) (filter has_receiver (nodes_preorder x))"
      using "1.IH" Some by blast
    then have "concat (map (getUsedContactPoints toggle) rs) =
            concat (map (\<lambda>x. map (reference_of toggle)
                                (filter has_receiver (nodes_preorder x))) rs)"
      by (simp cong: map_cong)
    then show ?thesis
      by (simp add: Some map_concat filter_concat comp_def)
  qed
  show ?case
    by (cases rcv) (simp_all add: Let_def kids has_receiver_Route reference_of_Some)
qed

text \<open>
  C1: for every policy tree, \<^verbatim>\<open>getUsedContactPoints\<close> returns exactly one route reference
  per node whose receiver is non-empty, in pre-order (a node before its children, the
  children from left to right) and without deduplication. So the length of the result is
  the number of nodes with a non-empty receiver, and a tree without such a node gives
  the empty list.
\<close>

theorem getUsedContactPoints_one_reference_per_receiver_node:
  "getUsedContactPoints toggle tree =
     map (reference_of toggle) (filter has_receiver (nodes_preorder tree))
   \<and> length (getUsedContactPoints toggle tree) =
       length (filter has_receiver (nodes_preorder tree))
   \<and> (\<not> list_ex has_receiver (nodes_preorder tree) \<longrightarrow>
        getUsedContactPoints toggle tree = [])"
proof -
  have eq: "getUsedContactPoints toggle tree =
              map (reference_of toggle) (filter has_receiver (nodes_preorder tree))"
    by (rule getUsedContactPoints_preorder)
  have none: "\<not> list_ex has_receiver (nodes_preorder tree) \<Longrightarrow>
              filter has_receiver (nodes_preorder tree) = []"
    by (simp add: list_ex_iff filter_empty_conv)
  show ?thesis
    using eq none by simp
qed

text \<open>
  The trees of the example: a root that names the receiver \<open>R\<close> twice over (itself and its
  second child), with a first child \<open>C1\<close>; and a tree of two nodes without receivers.
\<close>

theorem getUsedContactPoints_one_reference_per_receiver_node_witness:
  "\<not> list_ex has_receiver
       (nodes_preorder (Route None None (Some [Route (Some []) None None])))
   \<and> getUsedContactPoints None (Route None None (Some [Route (Some []) None None])) = []
   \<and> getUsedContactPoints None
       (Route (Some ''R'') None
          (Some [Route (Some ''C1'') None None, Route (Some ''R'') None (Some [])])) =
       [\<lparr> RouteReference.receiver = ''R'',
          RouteReference.route = \<lparr> RouteReferenceRoute.type = normal \<rparr> \<rparr>,
        \<lparr> RouteReference.receiver = ''C1'',
          RouteReference.route = \<lparr> RouteReferenceRoute.type = normal \<rparr> \<rparr>,
        \<lparr> RouteReference.receiver = ''R'',
          RouteReference.route = \<lparr> RouteReferenceRoute.type = normal \<rparr> \<rparr>]"
  using getUsedContactPoints_one_reference_per_receiver_node
          [of None "Route None None (Some [Route (Some []) None None])"]
        getUsedContactPoints_one_reference_per_receiver_node
          [of None "Route (Some ''R'') None
                      (Some [Route (Some ''C1'') None None, Route (Some ''R'') None (Some [])])"]
  by (simp add: has_receiver_def truthy_def reference_of_def isAutoGeneratedPolicy_def)

text \<open>
  C4: \<^verbatim>\<open>isAutoGeneratedPolicy\<close> returns true if and only if the feature toggle is
  enabled, the matcher list of the node is present, and some matcher in it has the label
  \<^verbatim>\<open>__grafana_receiver__\<close> and the operator "equals". In particular it returns false
  whenever the toggle is disabled or unset, whatever the matchers.
\<close>

theorem isAutoGeneratedPolicy_iff:
  "isAutoGeneratedPolicy toggle r =
     (toggle = Some True
      \<and> (\<exists>matchers. object_matchers r = Some matchers
            \<and> (\<exists>m \<in> set matchers. fst m = ''__grafana_receiver__'' \<and> fst (snd m) = equal)))
   \<and> (toggle \<noteq> Some True \<longrightarrow> \<not> isAutoGeneratedPolicy toggle r)"
  by (cases toggle; cases "object_matchers r")
     (auto simp: isAutoGeneratedPolicy_def AUTOGENERATED_RECEIVER_POLICY_MATCHER_KEY_def
                 list_ex_iff)

theorem isAutoGeneratedPolicy_iff_witness:
  "isAutoGeneratedPolicy (Some True)
     (Route (Some ''R'') (Some [(''team'', regex, ''a''), (''__grafana_receiver__'', equal, ''R'')]) None)
   \<and> Some False \<noteq> Some True
   \<and> \<not> isAutoGeneratedPolicy (Some False)
       (Route (Some ''R'') (Some [(''__grafana_receiver__'', equal, ''R'')]) None)
   \<and> \<not> isAutoGeneratedPolicy None
       (Route (Some ''R'') (Some [(''__grafana_receiver__'', equal, ''R'')]) None)"
  using isAutoGeneratedPolicy_iff
          [of "Some True" "Route (Some ''R'')
             (Some [(''team'', regex, ''a''), (''__grafana_receiver__'', equal, ''R'')]) None"]
        isAutoGeneratedPolicy_iff
          [of "Some False" "Route (Some ''R'') (Some [(''__grafana_receiver__'', equal, ''R'')]) None"]
        isAutoGeneratedPolicy_iff
          [of None "Route (Some ''R'') (Some [(''__grafana_receiver__'', equal, ''R'')]) None"]
  by simp

subsection \<open>Properties of the email summary\<close>


lemma difference_filter: "difference xs ys = filter (\<lambda>x. x \<notin> set ys) xs"
  by (induction xs) simp_all

lemma split_pieces_nonempty: "split_SUPPORTED_SEPARATORS s \<noteq> []"
  by (induction s rule: split_SUPPORTED_SEPARATORS.induct) (simp_all split: list.splits)

lemma split_pieces_free_of_separators:
  "p \<in> set (split_SUPPORTED_SEPARATORS s) \<Longrightarrow>
     CHR '','' \<notin> set p \<and> CHR '';'' \<notin> set p \<and> CHR 0x0A \<notin> set p"
proof (induction s arbitrary: p rule: split_SUPPORTED_SEPARATORS.induct)
  case 1
  then show ?case by simp
next
  case (2 c cs)
  then show ?case
    by (auto split: if_splits list.splits)
qed

lemma set_trim_subset: "set (trim s) \<subseteq> set s"
  by (auto simp: trim_def dest!: set_dropWhileD)

lemma last_dropWhile: "dropWhile P xs \<noteq> [] \<Longrightarrow> last (dropWhile P xs) = last xs"
  by (induction xs) (auto split: if_splits)

lemma trim_ends:
  assumes "trim s \<noteq> []"
  shows "\<not> is_whitespace (hd (trim s)) \<and> \<not> is_whitespace (last (trim s))"
proof -
  let ?t = "dropWhile is_whitespace s"
  let ?u = "dropWhile is_whitespace (rev ?t)"
  have u: "?u \<noteq> []" using assms by (simp add: trim_def)
  have t: "?t \<noteq> []"
  proof
    assume "?t = []"
    then have "?u = []" by (simp only: rev.simps dropWhile.simps)
    with u show False by simp
  qed
  have "\<not> is_whitespace (hd ?u)" using u by (rule hd_dropWhile)
  then have l: "\<not> is_whitespace (last (trim s))"
    using u by (simp add: trim_def last_rev)
  have "last ?u = last (rev ?t)" using u by (rule last_dropWhile)
  also have "\<dots> = hd ?t" using t by (simp add: last_rev)
  finally have "hd (trim s) = hd ?t" using u by (simp add: trim_def hd_rev)
  moreover have "\<not> is_whitespace (hd ?t)" using t by (rule hd_dropWhile)
  ultimately show ?thesis using l by simp
qed


lemma digit_char_value: "d < 10 \<Longrightarrow> (of_char (digit_char d) :: nat) = 48 + d"
  by (simp add: digit_char_def)

lemma decimal_value_string_of_nat: "decimal_value (string_of_nat n) = n"
proof (induction n rule: string_of_nat.induct)
  case (1 n)
  show ?case
  proof (cases "n < 10")
    case True
    then show ?thesis
      by (subst string_of_nat.simps) (simp add: decimal_value_def digit_char_value)
  next
    case False
    then have "decimal_value (string_of_nat (n div 10)) = n div 10"
      using "1.IH" by simp
    then show ?thesis
      using False
      by (subst string_of_nat.simps) (simp add: decimal_value_def digit_char_value)
  qed
qed

text \<open>The functions of the source compute what the specification defines.\<close>

lemma is_whitespace_spec: "is_whitespace = spec_white_space"
  by (auto simp: fun_eq_iff is_whitespace_def spec_white_space_def)

lemma rev_dropWhile_rev:
  "rev (dropWhile P (rev b)) = take (length b - length (takeWhile P (rev b))) b"
proof -
  have "rev (dropWhile P (rev b)) = rev (drop (length (takeWhile P (rev b))) (rev b))"
    by (simp only: dropWhile_eq_drop)
  also have "\<dots> = take (length b - length (takeWhile P (rev b))) b"
    by (simp only: rev_drop length_rev rev_rev_ident)
  finally show ?thesis .
qed

lemma trim_spec: "trim s = spec_trimmed s"
proof -
  have "trim s = rev (dropWhile spec_white_space (rev (dropWhile spec_white_space s)))"
    by (simp only: trim_def is_whitespace_spec)
  also have "\<dots> = (let body = dropWhile spec_white_space s
                    in take (length body - length (takeWhile spec_white_space (rev body))) body)"
    by (simp only: rev_dropWhile_rev Let_def)
  also have "\<dots> = spec_trimmed s"
    by (simp only: spec_trimmed_def dropWhile_eq_drop)
  finally show ?thesis .
qed

lemma squeeze_Cons_other:
  "c \<noteq> CHR 0x0A \<Longrightarrow> spec_squeeze_line_feeds (c # cs) = c # spec_squeeze_line_feeds cs"
  by (simp add: spec_squeeze_line_feeds_def)

lemma squeeze_line_feed:
  "spec_squeeze_line_feeds (CHR 0x0A # cs) =
     CHR 0x0A # spec_squeeze_line_feeds (dropWhile (\<lambda>d. d = CHR 0x0A) cs)"
proof (induction cs)
  case Nil
  then show ?case by (simp add: spec_squeeze_line_feeds_def)
next
  case (Cons d ds)
  show ?case
  proof (cases "d = CHR 0x0A")
    case True
    have "spec_squeeze_line_feeds (CHR 0x0A # CHR 0x0A # ds) =
          spec_squeeze_line_feeds (CHR 0x0A # ds)"
      using Cons.IH by (simp add: spec_squeeze_line_feeds_def)
    then show ?thesis
      using True Cons.IH by simp
  next
    case False
    then show ?thesis
      by (simp add: spec_squeeze_line_feeds_def)
  qed
qed

lemma split_at_nonempty: "spec_split_at P s \<noteq> []"
  by (induction s) (simp_all add: spec_split_at_def)

lemma split_at_Cons:
  "spec_split_at P (c # cs) =
     (if P c then [] # spec_split_at P cs
      else (c # hd (spec_split_at P cs)) # tl (spec_split_at P cs))"
  by (simp add: spec_split_at_def)

lemma split_spec:
  "split_SUPPORTED_SEPARATORS s =
     spec_split_at (\<lambda>c. c \<in> set [CHR '','', CHR '';'', CHR 0x0A]) (spec_squeeze_line_feeds s)"
proof (induction s rule: split_SUPPORTED_SEPARATORS.induct)
  case 1
  then show ?case by (simp add: spec_split_at_def spec_squeeze_line_feeds_def)
next
  case (2 c cs)
  let ?P = "\<lambda>c. c \<in> set [CHR '','', CHR '';'', CHR 0x0A]"
  show ?case
  proof (cases "c = CHR '','' \<or> c = CHR '';''")
    case True
    then have "split_SUPPORTED_SEPARATORS (c # cs) = [] # split_SUPPORTED_SEPARATORS cs"
      by simp
    moreover have "spec_squeeze_line_feeds (c # cs) = c # spec_squeeze_line_feeds cs"
      using True by (intro squeeze_Cons_other) auto
    ultimately show ?thesis
      using True "2.IH"(1) by (auto simp: split_at_Cons)
  next
    case False
    show ?thesis
    proof (cases "c = CHR 0x0A")
      case True
      then show ?thesis
        using False "2.IH"(2) by (simp add: squeeze_line_feed split_at_Cons)
    next
      case other: False
      have ne: "spec_split_at ?P (spec_squeeze_line_feeds cs) \<noteq> []"
        by (rule split_at_nonempty)
      have "split_SUPPORTED_SEPARATORS cs = spec_split_at ?P (spec_squeeze_line_feeds cs)"
        using False other "2.IH"(3) by simp
      then show ?thesis
        using False other ne
        by (cases "spec_split_at ?P (spec_squeeze_line_feeds cs)")
           (simp_all add: squeeze_Cons_other split_at_Cons)
    qed
  qed
qed

lemma parsed_addresses_spec: "parsed_addresses s = spec_addresses s"
  by (simp add: parsed_addresses_def spec_addresses_def trim_spec split_spec)

lemma join_spec: "join '', '' xs = spec_joined xs"
proof (induction "'', ''" xs rule: join.induct)
  case 1
  then show ?case by (simp add: spec_joined_def)
next
  case (2 x)
  then show ?case by (simp add: spec_joined_def)
next
  case (3 x y ys)
  then show ?case by (simp add: spec_joined_def)
qed

lemma digit_char_digit: "d < 10 \<Longrightarrow> digit_char d \<in> set ''0123456789''"
proof -
  have "list_all (\<lambda>d. digit_char d \<in> set ''0123456789'') [0..<10]"
    by code_simp
  then show "d < 10 \<Longrightarrow> digit_char d \<in> set ''0123456789''"
    by (simp add: list_all_iff)
qed

lemma digit_char_zero: "d < 10 \<Longrightarrow> digit_char d = CHR ''0'' \<longleftrightarrow> d = 0"
proof -
  have "list_all (\<lambda>d. digit_char d = CHR ''0'' \<longleftrightarrow> d = 0) [0..<10]"
    by code_simp
  then show "d < 10 \<Longrightarrow> digit_char d = CHR ''0'' \<longleftrightarrow> d = 0"
    by (simp add: list_all_iff)
qed

lemma digit_of_char:
  "c \<in> set ''0123456789'' \<Longrightarrow> (of_char c :: nat) - 48 < 10 \<and> digit_char (of_char c - 48) = c"
proof -
  have "list_all (\<lambda>c. (of_char c :: nat) - 48 < 10 \<and> digit_char (of_char c - 48) = c)
          ''0123456789''"
    by code_simp
  then show "c \<in> set ''0123456789'' \<Longrightarrow>
      (of_char c :: nat) - 48 < 10 \<and> digit_char (of_char c - 48) = c"
    unfolding list_all_iff by blast
qed

lemma string_of_nat_nonempty: "string_of_nat n \<noteq> []"
  by (subst string_of_nat.simps) simp

lemma string_of_nat_digits: "list_all (\<lambda>c. c \<in> set ''0123456789'') (string_of_nat n)"
proof (induction n rule: string_of_nat.induct)
  case (1 n)
  show ?case
  proof (cases "n < 10")
    case True
    then show ?thesis
      using digit_char_digit [of n] by (subst string_of_nat.simps) simp
  next
    case False
    then show ?thesis
      using "1.IH" digit_char_digit [of "n mod 10"]
      by (subst string_of_nat.simps) simp
  qed
qed

lemma string_of_nat_canonical:
  "take 1 (string_of_nat n) \<noteq> ''0'' \<or> string_of_nat n = ''0''"
proof (induction n rule: string_of_nat.induct)
  case (1 n)
  show ?case
  proof (cases "n < 10")
    case True
    then show ?thesis
      using digit_char_zero [of n] by (subst (1 2) string_of_nat.simps) auto
  next
    case False
    have "string_of_nat (n div 10) \<noteq> ''0''"
    proof
      assume "string_of_nat (n div 10) = ''0''"
      then have "decimal_value (string_of_nat (n div 10)) = 0"
        by (simp add: decimal_value_def)
      then show False
        using False decimal_value_string_of_nat [of "n div 10"] by simp
    qed
    then have "take 1 (string_of_nat (n div 10)) \<noteq> ''0''"
      using "1.IH" False by simp
    moreover have "take 1 (string_of_nat n) = take 1 (string_of_nat (n div 10))"
      using False string_of_nat_nonempty [of "n div 10"]
      by (subst string_of_nat.simps) (cases "string_of_nat (n div 10)"; simp)
    ultimately show ?thesis by simp
  qed
qed

lemma string_of_nat_numeral: "spec_decimal_numeral (string_of_nat n) n"
  unfolding spec_decimal_numeral_def
  using string_of_nat_nonempty [of n] string_of_nat_digits [of n]
        string_of_nat_canonical [of n] decimal_value_string_of_nat [of n]
  by blast

lemma decimal_value_snoc:
  "decimal_value (d @ [c]) = 10 * decimal_value d + (of_char c - 48)"
  by (simp add: decimal_value_def)

lemma decimal_value_positive:
  "d \<noteq> [] \<Longrightarrow> list_all (\<lambda>c. c \<in> set ''0123456789'') d \<Longrightarrow> take 1 d \<noteq> ''0'' \<Longrightarrow>
   0 < decimal_value d"
proof (induction d rule: rev_induct)
  case Nil
  then show ?case by simp
next
  case (snoc c xs)
  show ?case
  proof (cases xs)
    case Nil
    have "c \<noteq> CHR ''0''" using snoc.prems(3) Nil by simp
    moreover have "(of_char c :: nat) - 48 < 10 \<and> digit_char (of_char c - 48) = c"
      using snoc.prems(2) by (intro digit_of_char) simp
    ultimately have "(of_char c :: nat) - 48 \<noteq> 0"
      using digit_char_zero [of "of_char c - 48"] by auto
    then show ?thesis
      using Nil by (simp add: decimal_value_snoc decimal_value_def)
  next
    case (Cons y ys)
    then have "0 < decimal_value xs"
      using snoc by simp
    then show ?thesis
      by (simp add: decimal_value_snoc)
  qed
qed

lemma numeral_unique: "spec_decimal_numeral d n \<Longrightarrow> d = string_of_nat n"
proof (induction n arbitrary: d rule: string_of_nat.induct)
  case (1 n)
  from "1.prems" have ne: "d \<noteq> []"
    and digits: "list_all (\<lambda>c. c \<in> set ''0123456789'') d"
    and canon: "take 1 d \<noteq> ''0'' \<or> d = ''0''"
    and val: "decimal_value d = n"
    by (simp_all add: spec_decimal_numeral_def)
  from ne obtain xs c where d: "d = xs @ [c]"
    by (cases d rule: rev_cases) auto
  have c: "(of_char c :: nat) - 48 < 10" "digit_char (of_char c - 48) = c"
    using digits d digit_of_char [of c] by simp_all
  have n: "n = 10 * decimal_value xs + (of_char c - 48)"
    using val d by (simp add: decimal_value_snoc)
  have xs_pos: "0 < decimal_value xs" if "xs \<noteq> []"
  proof (rule decimal_value_positive)
    show "xs \<noteq> []" by (rule that)
    show "list_all (\<lambda>c. c \<in> set ''0123456789'') xs"
      using digits d by simp
    have "d \<noteq> ''0''" using that d by auto
    then show "take 1 xs \<noteq> ''0''"
      using canon d that by (cases xs) auto
  qed
  show ?case
  proof (cases "n < 10")
    case True
    then have "decimal_value xs = 0" using n by simp
    then have "xs = []" using xs_pos by auto
    then show ?thesis
      using True d n c by (subst string_of_nat.simps) (simp add: decimal_value_def)
  next
    case False
    then have xs: "xs \<noteq> []"
      using n c(1) by (auto simp: decimal_value_def)
    have "n div 10 = decimal_value xs" "n mod 10 = of_char c - 48"
      using n c(1) by simp_all
    moreover have "spec_decimal_numeral xs (n div 10)"
    proof -
      have "d \<noteq> ''0''" using xs d by auto
      then have "take 1 xs \<noteq> ''0''"
        using canon d xs by (cases xs) auto
      then show ?thesis
        using xs digits d \<open>n div 10 = decimal_value xs\<close>
        by (simp add: spec_decimal_numeral_def)
    qed
    then have "xs = string_of_nat (n div 10)"
      using "1.IH" False by simp
    ultimately show ?thesis
      using False d c(2) by (subst string_of_nat.simps) simp
  qed
qed

lemma summary_spec:
  "summarizeEmailAddresses a =
     spec_joined (take 3 (spec_addresses a) @
       (if spec_rest_count a = 0 then []
        else [''+'' @ string_of_nat (spec_rest_count a) @ '' more'']))"
  by (simp add: summarizeEmailAddresses_def Let_def difference_filter join_spec
        spec_rest_count_def
        parsed_addresses_spec [unfolded parsed_addresses_def])

lemma spec_addresses_shape:
  assumes "e \<in> set (spec_addresses a)"
  shows "CHR '','' \<notin> set e \<and> CHR '';'' \<notin> set e \<and> CHR 0x0A \<notin> set e
         \<and> (e \<noteq> [] \<longrightarrow> \<not> spec_white_space (hd e) \<and> \<not> spec_white_space (last e))"
proof -
  from assms obtain p where p: "p \<in> set (split_SUPPORTED_SEPARATORS (trim a))"
    and e: "e = trim p"
    by (auto simp: parsed_addresses_spec [symmetric] parsed_addresses_def)
  have "set e \<subseteq> set p" using e set_trim_subset by simp
  then show ?thesis
    using split_pieces_free_of_separators [OF p] trim_ends [of p] e
    by (auto simp: is_whitespace_spec)
qed

text \<open>
  C3: \<^verbatim>\<open>summarizeEmailAddresses\<close> shows the first three addresses of its argument, in order
  of appearance, each after a comma and a space. \<open>N\<close> is the number of addresses whose
  value is not among the first three; if \<open>N\<close> is not zero the segment \<^verbatim>\<open>+N more\<close>, with
  the decimal numeral of \<open>N\<close>, is appended, and with three or fewer addresses nothing is
  appended. The addresses are the trimmed pieces between commas, semicolons and runs of
  line feeds.
\<close>

theorem summarizeEmailAddresses_shows_three_and_counts_rest:
  "(\<exists>numeral. spec_decimal_numeral numeral (spec_rest_count addresses)
      \<and> summarizeEmailAddresses addresses =
          spec_joined (take 3 (spec_addresses addresses) @
            (if spec_rest_count addresses = 0 then []
             else [''+'' @ numeral @ '' more''])))
   \<and> (length (spec_addresses addresses) \<le> 3 \<longrightarrow>
        summarizeEmailAddresses addresses = spec_joined (spec_addresses addresses))
   \<and> (\<forall>e \<in> set (spec_addresses addresses).
        CHR '','' \<notin> set e \<and> CHR '';'' \<notin> set e \<and> CHR 0x0A \<notin> set e
        \<and> (e \<noteq> [] \<longrightarrow> \<not> spec_white_space (hd e) \<and> \<not> spec_white_space (last e)))"
proof (intro conjI)
  show "\<exists>numeral. spec_decimal_numeral numeral (spec_rest_count addresses)
      \<and> summarizeEmailAddresses addresses =
          spec_joined (take 3 (spec_addresses addresses) @
            (if spec_rest_count addresses = 0 then []
             else [''+'' @ numeral @ '' more'']))"
    using string_of_nat_numeral [of "spec_rest_count addresses"] summary_spec [of addresses]
    by blast
  show "length (spec_addresses addresses) \<le> 3 \<longrightarrow>
        summarizeEmailAddresses addresses = spec_joined (spec_addresses addresses)"
    by (simp add: summary_spec spec_rest_count_def)
  show "\<forall>e \<in> set (spec_addresses addresses).
        CHR '','' \<notin> set e \<and> CHR '';'' \<notin> set e \<and> CHR 0x0A \<notin> set e
        \<and> (e \<noteq> [] \<longrightarrow> \<not> spec_white_space (hd e) \<and> \<not> spec_white_space (last e))"
    using spec_addresses_shape by blast
qed

theorem summarizeEmailAddresses_shows_three_and_counts_rest_witness:
  "length (spec_addresses ''a@x.com'') \<le> 3
   \<and> summarizeEmailAddresses ''a@x.com'' = ''a@x.com''
   \<and> summarizeEmailAddresses ''a;a,a,a,b'' = ''a, a, a, +1 more''
   \<and> summarizeEmailAddresses ''foo+1@bar.com, foo+2@bar.com, foo+3@bar.com, foo+4@bar.com'' =
       ''foo+1@bar.com, foo+2@bar.com, foo+3@bar.com, +1 more''
   \<and> summarizeEmailAddresses
       [CHR 0xA0, CHR ''a'', CHR 0x0A, CHR 0x0A, CHR ''b'', CHR '' '', CHR '';'', CHR ''c'',
        CHR 0x0A] = ''a, b, c''
   \<and> summarizeEmailAddresses ''a,b,c,d,e,f,g,h,i,j,k,l,m'' = ''a, b, c, +10 more''"
proof -
  have gen: "summarizeEmailAddresses a =
     spec_joined (take 3 (spec_addresses a) @
       (if spec_rest_count a = 0 then []
        else [''+'' @ string_of_nat (spec_rest_count a) @ '' more'']))" for a
    using summarizeEmailAddresses_shows_three_and_counts_rest [of a] numeral_unique
    by blast
  have n1: "string_of_nat 1 = ''1''" and n10: "string_of_nat 10 = ''10''"
    by code_simp+
  have p1: "spec_addresses ''a@x.com'' = [''a@x.com'']"
    and r1: "spec_rest_count ''a@x.com'' = 0"
    by code_simp+
  have e1: "summarizeEmailAddresses ''a@x.com'' = ''a@x.com''"
    unfolding gen p1 r1 by (simp add: spec_joined_def)
  have p2: "spec_addresses ''a;a,a,a,b'' = [''a'', ''a'', ''a'', ''a'', ''b'']"
    and r2: "spec_rest_count ''a;a,a,a,b'' = 1"
    by code_simp+
  have e2: "summarizeEmailAddresses ''a;a,a,a,b'' = ''a, a, a, +1 more''"
    unfolding gen p2 r2 n1 by (simp add: spec_joined_def)
  have p3: "spec_addresses ''foo+1@bar.com, foo+2@bar.com, foo+3@bar.com, foo+4@bar.com'' =
              [''foo+1@bar.com'', ''foo+2@bar.com'', ''foo+3@bar.com'', ''foo+4@bar.com'']"
    and r3: "spec_rest_count ''foo+1@bar.com, foo+2@bar.com, foo+3@bar.com, foo+4@bar.com'' = 1"
    by code_simp+
  have e3: "summarizeEmailAddresses
              ''foo+1@bar.com, foo+2@bar.com, foo+3@bar.com, foo+4@bar.com'' =
            ''foo+1@bar.com, foo+2@bar.com, foo+3@bar.com, +1 more''"
    unfolding gen p3 r3 n1 by (simp add: spec_joined_def)
  have p4: "spec_addresses
              [CHR 0xA0, CHR ''a'', CHR 0x0A, CHR 0x0A, CHR ''b'', CHR '' '', CHR '';'',
               CHR ''c'', CHR 0x0A] = [''a'', ''b'', ''c'']"
    and r4: "spec_rest_count
              [CHR 0xA0, CHR ''a'', CHR 0x0A, CHR 0x0A, CHR ''b'', CHR '' '', CHR '';'',
               CHR ''c'', CHR 0x0A] = 0"
    by code_simp+
  have e4: "summarizeEmailAddresses
              [CHR 0xA0, CHR ''a'', CHR 0x0A, CHR 0x0A, CHR ''b'', CHR '' '', CHR '';'',
               CHR ''c'', CHR 0x0A] = ''a, b, c''"
    unfolding gen p4 r4 by (simp add: spec_joined_def)
  have p5: "spec_addresses ''a,b,c,d,e,f,g,h,i,j,k,l,m'' =
              [''a'', ''b'', ''c'', ''d'', ''e'', ''f'', ''g'', ''h'', ''i'', ''j'', ''k'', ''l'', ''m'']"
    and r5: "spec_rest_count ''a,b,c,d,e,f,g,h,i,j,k,l,m'' = 10"
    by code_simp+
  have e5: "summarizeEmailAddresses ''a,b,c,d,e,f,g,h,i,j,k,l,m'' = ''a, b, c, +10 more''"
    unfolding gen p5 r5 n10 by (simp add: spec_joined_def)
  show ?thesis
    using e1 e2 e3 e4 e5 by (simp add: p1)
qed

subsection \<open>Properties of the receiver descriptions\<close>

lemma strip_leading_hash_spec:
  "strip_leading_hash r = (if take 1 r = ''#'' then drop 1 r else r)"
  by (cases r) (simp_all add: strip_leading_hash_def)

lemma getReceiverDescription_slack:
  "GrafanaManagedReceiverConfig.type rc = ''slack'' \<Longrightarrow>
   getReceiverDescription OnCall rc =
     (case js_or (setting_of rc ''recipient'') (setting_of rc ''channel'') of
        None \<Rightarrow> None
      | Some r \<Rightarrow> if r = [] then None else Some (''#'' @ strip_leading_hash r))"
  by (simp add: getReceiverDescription_def setting_of_def js_or_def truthy_def Let_def
           split: option.split)

text \<open>
  C7 (as amended): for every slack receiver config, \<^verbatim>\<open>getReceiverDescription\<close> reads the
  recipient from the primary field or, if that is absent or the empty string, from the
  channel field; if neither holds a non-empty string it returns no description;
  otherwise it strips one leading \<^verbatim>\<open>#\<close> and puts a single \<^verbatim>\<open>#\<close> in front.
\<close>

theorem slack_description:
  "GrafanaManagedReceiverConfig.type rc = ''slack'' \<Longrightarrow>
   getReceiverDescription OnCall rc =
     spec_slack_description (nonempty_fields (setting_of rc))"
  by (auto simp: getReceiverDescription_slack strip_leading_hash_spec
        spec_slack_description_def nonempty_fields_def js_or_def truthy_def
        split: option.splits)

theorem slack_description_witness:
  "getReceiverDescription ''oncall''
     (example_slack_receiver (Some [''recipient'' \<mapsto> ''#general''])) = Some ''#general''
   \<and> getReceiverDescription ''oncall''
     (example_slack_receiver (Some [''channel'' \<mapsto> ''general''])) = Some ''#general''
   \<and> getReceiverDescription ''oncall''
     (example_slack_receiver (Some [''recipient'' \<mapsto> ''##general''])) = Some ''##general''
   \<and> getReceiverDescription ''oncall''
     (example_slack_receiver (Some [''recipient'' \<mapsto> [], ''channel'' \<mapsto> ''ops''])) =
       Some ''#ops''
   \<and> getReceiverDescription ''oncall'' (example_slack_receiver (Some Map.empty)) = None
   \<and> getReceiverDescription ''oncall'' (example_slack_receiver None) = None"
  using slack_description
          [of "example_slack_receiver (Some [''recipient'' \<mapsto> ''#general''])" "''oncall''"]
        slack_description
          [of "example_slack_receiver (Some [''channel'' \<mapsto> ''general''])" "''oncall''"]
        slack_description
          [of "example_slack_receiver (Some [''recipient'' \<mapsto> ''##general''])" "''oncall''"]
        slack_description
          [of "example_slack_receiver (Some [''recipient'' \<mapsto> [], ''channel'' \<mapsto> ''ops''])"
              "''oncall''"]
        slack_description [of "example_slack_receiver (Some Map.empty)" "''oncall''"]
        slack_description [of "example_slack_receiver None" "''oncall''"]
  by (simp add: spec_slack_description_def nonempty_fields_def setting_of_def)

text \<open>
  C7 as stated fails for a recipient that is present and empty: the source returns no
  description, where the stated rule gives \<^verbatim>\<open>#\<close>.
\<close>

theorem slack_description_empty_recipient_counterexample:
  "getReceiverDescription ''oncall''
     (example_slack_receiver (Some [''recipient'' \<mapsto> []])) = None
   \<and> spec_slack_description
       (setting_of (example_slack_receiver (Some [''recipient'' \<mapsto> []]))) = Some ''#''
   \<and> getReceiverDescription ''oncall''
       (example_slack_receiver (Some [''recipient'' \<mapsto> []]))
     \<noteq> spec_slack_description
         (setting_of (example_slack_receiver (Some [''recipient'' \<mapsto> []])))"
  by (simp add: getReceiverDescription_def js_or_def truthy_def spec_slack_description_def
        setting_of_def)

text \<open>
  C9: a receiver config without settings has no description, whatever its type; the
  metadata attached for the OnCall type and for the default case is not consulted.
\<close>

theorem getReceiverDescription_without_settings:
  "GrafanaManagedReceiverConfig.settings rc = None \<Longrightarrow> getReceiverDescription OnCall rc = None"
  by (simp add: getReceiverDescription_def)

theorem getReceiverDescription_without_settings_witness:
  "GrafanaManagedReceiverConfig.settings
     \<lparr> GrafanaManagedReceiverConfig.type = ''oncall'',
       settings = None,
       GrafanaManagedReceiverConfig.rest = (),
       RECEIVER_STATUS_KEY = (None :: unit option),
       RECEIVER_META_KEY = \<lparr> NotifierMetadata.name = ''Grafana OnCall'',
                             NotifierMetadata.description = Some ''Grafana OnCall contact point'' \<rparr>,
       RECEIVER_PLUGIN_META_KEY =
         Some \<lparr> ReceiverPluginMetadata.description = Some ''Connection to Grafana OnCall'' \<rparr> \<rparr> = None
   \<and> getReceiverDescription ''oncall''
     \<lparr> GrafanaManagedReceiverConfig.type = ''oncall'',
       settings = None,
       GrafanaManagedReceiverConfig.rest = (),
       RECEIVER_STATUS_KEY = (None :: unit option),
       RECEIVER_META_KEY = \<lparr> NotifierMetadata.name = ''Grafana OnCall'',
                             NotifierMetadata.description = Some ''Grafana OnCall contact point'' \<rparr>,
       RECEIVER_PLUGIN_META_KEY =
         Some \<lparr> ReceiverPluginMetadata.description = Some ''Connection to Grafana OnCall'' \<rparr> \<rparr> = None
   \<and> getReceiverDescription ''oncall''
     \<lparr> GrafanaManagedReceiverConfig.type = ''teams'',
       settings = None,
       GrafanaManagedReceiverConfig.rest = (),
       RECEIVER_STATUS_KEY = (None :: unit option),
       RECEIVER_META_KEY = \<lparr> NotifierMetadata.name = ''Microsoft Teams'',
                             NotifierMetadata.description = Some ''Sends notifications to Teams'' \<rparr>,
       RECEIVER_PLUGIN_META_KEY = None \<rparr> = None"
  using getReceiverDescription_without_settings
     [of "\<lparr> GrafanaManagedReceiverConfig.type = ''oncall'',
       settings = None,
       GrafanaManagedReceiverConfig.rest = (),
       RECEIVER_STATUS_KEY = (None :: unit option),
       RECEIVER_META_KEY = \<lparr> NotifierMetadata.name = ''Grafana OnCall'',
                             NotifierMetadata.description = Some ''Grafana OnCall contact point'' \<rparr>,
       RECEIVER_PLUGIN_META_KEY =
         Some \<lparr> ReceiverPluginMetadata.description = Some ''Connection to Grafana OnCall'' \<rparr> \<rparr>"
       "''oncall''"]
    getReceiverDescription_without_settings
     [of "\<lparr> GrafanaManagedReceiverConfig.type = ''teams'',
       settings = None,
       GrafanaManagedReceiverConfig.rest = (),
       RECEIVER_STATUS_KEY = (None :: unit option),
       RECEIVER_META_KEY = \<lparr> NotifierMetadata.name = ''Microsoft Teams'',
                             NotifierMetadata.description = Some ''Sends notifications to Teams'' \<rparr>,
       RECEIVER_PLUGIN_META_KEY = None \<rparr>"
       "''oncall''"]
  by simp

text \<open>
  C8: when no description is available (the settings are absent, or the field that the
  type of the receiver reads is not present) \<^verbatim>\<open>getReceiverDescription\<close> returns the
  absent value, not an empty string.
\<close>

theorem getReceiverDescription_absent_when_no_description:
  "GrafanaManagedReceiverConfig.settings rc = None
   \<or> (\<exists>stg. GrafanaManagedReceiverConfig.settings rc = Some stg
        \<and> (if GrafanaManagedReceiverConfig.type rc = ''email''
             then stg ''addresses'' = None \<and> stg ''to'' = None
           else if GrafanaManagedReceiverConfig.type rc = ''slack''
             then stg ''recipient'' = None \<and> stg ''channel'' = None
           else if GrafanaManagedReceiverConfig.type rc = ''kafka''
             then stg ''kafkaTopic'' = None
           else if GrafanaManagedReceiverConfig.type rc = ''webhook''
             then stg ''url'' = None
           else if GrafanaManagedReceiverConfig.type rc = OnCall
             then (case RECEIVER_PLUGIN_META_KEY rc of
                     None \<Rightarrow> True
                   | Some pluginMetadata \<Rightarrow>
                       ReceiverPluginMetadata.description pluginMetadata = None)
           else NotifierMetadata.description (RECEIVER_META_KEY rc) = None)) \<Longrightarrow>
   getReceiverDescription OnCall rc = None \<and> getReceiverDescription OnCall rc \<noteq> Some ''''"
  by (auto simp: getReceiverDescription_def js_or_def truthy_def Let_def
           split: if_splits option.splits)

theorem getReceiverDescription_absent_when_no_description_witness:
  "getReceiverDescription ''oncall''
     \<lparr> GrafanaManagedReceiverConfig.type = ''kafka'',
       settings = Some [''kafkaRestProxy'' \<mapsto> ''http://localhost:8082''],
       GrafanaManagedReceiverConfig.rest = (),
       RECEIVER_STATUS_KEY = (None :: unit option),
       RECEIVER_META_KEY = \<lparr> NotifierMetadata.name = ''Kafka REST Proxy'',
                             NotifierMetadata.description = Some ''Sends notifications to Kafka'' \<rparr>,
       RECEIVER_PLUGIN_META_KEY = None \<rparr> = None
   \<and> getReceiverDescription ''oncall''
     \<lparr> GrafanaManagedReceiverConfig.type = ''email'',
       settings = Some [''singleEmail'' \<mapsto> ''true''],
       GrafanaManagedReceiverConfig.rest = (),
       RECEIVER_STATUS_KEY = (None :: unit option),
       RECEIVER_META_KEY = \<lparr> NotifierMetadata.name = ''Email'',
                             NotifierMetadata.description = Some ''Sends notifications using email'' \<rparr>,
       RECEIVER_PLUGIN_META_KEY = None \<rparr> = None
   \<and> getReceiverDescription ''oncall''
     \<lparr> GrafanaManagedReceiverConfig.type = ''oncall'',
       settings = Some [''url'' \<mapsto> ''http://oncall''],
       GrafanaManagedReceiverConfig.rest = (),
       RECEIVER_STATUS_KEY = (None :: unit option),
       RECEIVER_META_KEY = \<lparr> NotifierMetadata.name = ''Grafana OnCall'',
                             NotifierMetadata.description = Some ''Grafana OnCall contact point'' \<rparr>,
       RECEIVER_PLUGIN_META_KEY = None \<rparr> = None"
  using getReceiverDescription_absent_when_no_description
     [of "\<lparr> GrafanaManagedReceiverConfig.type = ''kafka'',
       settings = Some [''kafkaRestProxy'' \<mapsto> ''http://localhost:8082''],
       GrafanaManagedReceiverConfig.rest = (),
       RECEIVER_STATUS_KEY = (None :: unit option),
       RECEIVER_META_KEY = \<lparr> NotifierMetadata.name = ''Kafka REST Proxy'',
                             NotifierMetadata.description = Some ''Sends notifications to Kafka'' \<rparr>,
       RECEIVER_PLUGIN_META_KEY = None \<rparr>" "''oncall''"]
    getReceiverDescription_absent_when_no_description
     [of "\<lparr> GrafanaManagedReceiverConfig.type = ''email'',
       settings = Some [''singleEmail'' \<mapsto> ''true''],
       GrafanaManagedReceiverConfig.rest = (),
       RECEIVER_STATUS_KEY = (None :: unit option),
       RECEIVER_META_KEY = \<lparr> NotifierMetadata.name = ''Email'',
                             NotifierMetadata.description = Some ''Sends notifications using email'' \<rparr>,
       RECEIVER_PLUGIN_META_KEY = None \<rparr>" "''oncall''"]
    getReceiverDescription_absent_when_no_description
     [of "\<lparr> GrafanaManagedReceiverConfig.type = ''oncall'',
       settings = Some [''url'' \<mapsto> ''http://oncall''],
       GrafanaManagedReceiverConfig.rest = (),
       RECEIVER_STATUS_KEY = (None :: unit option),
       RECEIVER_META_KEY = \<lparr> NotifierMetadata.name = ''Grafana OnCall'',
                             NotifierMetadata.description = Some ''Grafana OnCall contact point'' \<rparr>,
       RECEIVER_PLUGIN_META_KEY = None \<rparr>" "''oncall''"]
  by simp

subsection \<open>Properties of the sort\<close>

lemma length_sort_insert: "length (sort_insert cmp x ys) = Suc (length ys)"
  by (induction ys) simp_all

lemma length_array_sort: "length (array_sort cmp xs) = length xs"
  by (induction xs) (simp_all add: length_sort_insert)

lemma set_sort_insert: "set (sort_insert cmp x ys) = insert x (set ys)"
  by (induction ys) auto

lemma set_array_sort: "set (array_sort cmp xs) = set xs"
  by (induction xs) (simp_all add: set_sort_insert)

lemma sort_insert_map:
  "sort_insert cmp (f x) (map f ys) = map f (sort_insert (\<lambda>a b. cmp (f a) (f b)) x ys)"
  by (induction ys) simp_all

lemma array_sort_map:
  "array_sort cmp (map f xs) = map f (array_sort (\<lambda>a b. cmp (f a) (f b)) xs)"
  by (induction xs) (simp_all add: sort_insert_map)

lemma sorted_sort_insert:
  assumes total: "\<And>a b. cmp a b \<le> 0 \<or> cmp b a \<le> 0"
    and trans: "\<And>a b c. cmp a b \<le> 0 \<Longrightarrow> cmp b c \<le> 0 \<Longrightarrow> cmp a c \<le> 0"
    and sorted: "sorted_wrt (\<lambda>a b. cmp a b \<le> 0) ys"
  shows "sorted_wrt (\<lambda>a b. cmp a b \<le> 0) (sort_insert cmp x ys)"
  using sorted
proof (induction ys)
  case Nil
  then show ?case by simp
next
  case (Cons y ys)
  show ?case
  proof (cases "cmp x y \<le> 0")
    case True
    then have "\<forall>z \<in> set ys. cmp x z \<le> 0"
      using Cons.prems trans by auto
    then show ?thesis
      using True Cons.prems by simp
  next
    case False
    then have "cmp y x \<le> 0"
      using total [of x y] by simp
    then show ?thesis
      using False Cons by (auto simp: set_sort_insert)
  qed
qed

lemma sorted_array_sort:
  assumes total: "\<And>a b. cmp a b \<le> 0 \<or> cmp b a \<le> 0"
    and trans: "\<And>a b c. cmp a b \<le> 0 \<Longrightarrow> cmp b c \<le> 0 \<Longrightarrow> cmp a c \<le> 0"
  shows "sorted_wrt (\<lambda>a b. cmp a b \<le> 0) (array_sort cmp xs)"
proof (induction xs)
  case Nil
  then show ?case by simp
next
  case (Cons x xs)
  then show ?case
    using sorted_sort_insert [of cmp "array_sort cmp xs" x] total trans by simp
qed

lemma filter_sort_insert:
  assumes "\<And>y. y \<in> set ys \<Longrightarrow> P x \<Longrightarrow> P y \<Longrightarrow> cmp x y \<le> 0"
  shows "filter P (sort_insert cmp x ys) = (if P x then x # filter P ys else filter P ys)"
  using assms by (induction ys) auto

lemma filter_array_sort:
  assumes "\<And>x y. P x \<Longrightarrow> P y \<Longrightarrow> cmp x y \<le> 0"
  shows "filter P (array_sort cmp xs) = filter P xs"
  using assms by (induction xs) (simp_all add: filter_sort_insert)

text \<open>
  The model does not depend on the sorting algorithm: for a total and transitive
  comparison, a sorted list that keeps the order of the elements that compare equal is
  the list that \<open>array_sort\<close> returns.
\<close>

lemma sorted_stable_unique:
  assumes total: "\<And>a b. cmp a b \<le> 0 \<or> cmp b a \<le> 0"
    and "sorted_wrt (\<lambda>a b. cmp a b \<le> 0) ys"
    and "sorted_wrt (\<lambda>a b. cmp a b \<le> 0) zs"
    and "\<And>x. filter (\<lambda>y. cmp x y \<le> 0 \<and> cmp y x \<le> 0) ys =
              filter (\<lambda>y. cmp x y \<le> 0 \<and> cmp y x \<le> 0) zs"
  shows "ys = zs"
  using assms(2-)
proof (induction ys arbitrary: zs)
  case Nil
  show ?case
  proof (cases zs)
    case Nil
    then show ?thesis by simp
  next
    case (Cons z zs')
    have "cmp z z \<le> 0" using total [of z z] by simp
    then show ?thesis
      using Nil.prems(3) [of z] Cons by simp
  qed
next
  case (Cons y ys')
  have refl: "cmp a a \<le> 0" for a
    using total [of a a] by simp
  obtain z zs' where zs: "zs = z # zs'"
    using Cons.prems(3) [of y] refl [of y] by (cases zs) auto
  have "y = z"
  proof (cases "cmp y z \<le> 0 \<and> cmp z y \<le> 0")
    case True
    then show ?thesis
      using Cons.prems(3) [of y] refl [of y] zs by simp
  next
    case False
    have "y \<in> set (filter (\<lambda>v. cmp y v \<le> 0 \<and> cmp v y \<le> 0) zs)"
      using Cons.prems(3) [of y, symmetric] refl [of y] by simp
    then have "y \<in> set zs'"
      using False zs by auto
    then have 1: "cmp z y \<le> 0"
      using Cons.prems(2) zs by simp
    have "z \<in> set (filter (\<lambda>v. cmp z v \<le> 0 \<and> cmp v z \<le> 0) (y # ys'))"
      using Cons.prems(3) [of z] refl [of z] zs by simp
    then have "z \<in> set ys'"
      using False by auto
    then have "cmp y z \<le> 0"
      using Cons.prems(1) by simp
    then show ?thesis
      using 1 False by simp
  qed
  moreover have "ys' = zs'"
  proof (rule Cons.IH)
    show "sorted_wrt (\<lambda>a b. cmp a b \<le> 0) ys'"
      using Cons.prems(1) by simp
    show "sorted_wrt (\<lambda>a b. cmp a b \<le> 0) zs'"
      using Cons.prems(2) zs by simp
    show "filter (\<lambda>v. cmp x v \<le> 0 \<and> cmp v x \<le> 0) ys' =
          filter (\<lambda>v. cmp x v \<le> 0 \<and> cmp v x \<le> 0) zs'" for x
      using Cons.prems(3) [of x] zs \<open>y = z\<close> by (simp split: if_splits)
  qed
  ultimately show ?case
    using zs by simp
qed

lemma array_sort_unique:
  assumes total: "\<And>a b. cmp a b \<le> 0 \<or> cmp b a \<le> 0"
    and trans: "\<And>a b c. cmp a b \<le> 0 \<Longrightarrow> cmp b c \<le> 0 \<Longrightarrow> cmp a c \<le> 0"
    and sorted: "sorted_wrt (\<lambda>a b. cmp a b \<le> 0) ys"
    and stable: "\<And>x. filter (\<lambda>y. cmp x y \<le> 0 \<and> cmp y x \<le> 0) ys =
                     filter (\<lambda>y. cmp x y \<le> 0 \<and> cmp y x \<le> 0) xs"
  shows "ys = array_sort cmp xs"
proof (rule sorted_stable_unique [of cmp])
  show "cmp a b \<le> 0 \<or> cmp b a \<le> 0" for a b
    by (rule total)
  show "sorted_wrt (\<lambda>a b. cmp a b \<le> 0) ys"
    by (rule sorted)
  show "sorted_wrt (\<lambda>a b. cmp a b \<le> 0) (array_sort cmp xs)"
    using total trans by (rule sorted_array_sort)
  show "filter (\<lambda>y. cmp x y \<le> 0 \<and> cmp y x \<le> 0) ys =
        filter (\<lambda>y. cmp x y \<le> 0 \<and> cmp y x \<le> 0) (array_sort cmp xs)" for x
  proof -
    have "filter (\<lambda>y. cmp x y \<le> 0 \<and> cmp y x \<le> 0) (array_sort cmp xs) =
          filter (\<lambda>y. cmp x y \<le> 0 \<and> cmp y x \<le> 0) xs"
    proof (rule filter_array_sort)
      fix a b
      assume "cmp x a \<le> 0 \<and> cmp a x \<le> 0" and "cmp x b \<le> 0 \<and> cmp b x \<le> 0"
      then show "cmp a b \<le> 0"
        using trans [of a x b] by simp
    qed
    then show ?thesis
      using stable [of x] by simp
  qed
qed

subsection \<open>Properties of the enrichment\<close>

lemma length_enhanced: "length (enhanced ext args) = length (contactPoints args)"
  by (simp add: enhanced_def Let_def)

lemma name_enhanceContactPoint:
  "ContactPointWithMetadata.name (enhanceContactPoint ext sts ns oc amc byName cp) = Receiver.name cp"
  by (simp add: enhanceContactPoint_def Let_def)

lemma rest_enhanceContactPoint:
  "ContactPointWithMetadata.rest (enhanceContactPoint ext sts ns oc amc byName cp) = Receiver.rest cp"
  by (simp add: enhanceContactPoint_def Let_def)

lemma truncate_enhanceReceiver:
  "GrafanaManagedReceiverConfig.truncate (enhanceReceiver ext ns oc amc st p) = snd p"
  by (simp add: enhanceReceiver_def Let_def GrafanaManagedReceiverConfig.truncate_def)

lemma configs_enhanceContactPoint:
  "map GrafanaManagedReceiverConfig.truncate
     (ContactPointWithMetadata.grafana_managed_receiver_configs
        (enhanceContactPoint ext sts ns oc amc byName cp)) = extractReceivers ext cp"
  by (simp add: enhanceContactPoint_def Let_def comp_def truncate_enhanceReceiver)

lemma policies_enhanceContactPoint:
  "ContactPointWithMetadata.policies (enhanceContactPoint ext sts ns oc amc byName cp) =
     (case amc of None \<Rightarrow> None | Some c \<Rightarrow> Some (lookup_policies byName (Receiver.name cp)))"
  by (simp add: enhanceContactPoint_def Let_def)

lemma groupBy_lookup:
  "groupBy f xs k = (if k \<in> f ` set xs then Some (filter (\<lambda>x. f x = k) xs) else None)"
proof -
  have "foldl (\<lambda>result v.
              case result (f v) of
                Some members \<Rightarrow> result(f v \<mapsto> members @ [v])
              | None \<Rightarrow> result(f v \<mapsto> [v]))
           Map.empty xs k = (if k \<in> f ` set xs then Some (filter (\<lambda>x. f x = k) xs) else None)"
    by (induction xs arbitrary: k rule: rev_induct)
       (auto split: option.splits simp: filter_empty_conv image_iff)
  then show ?thesis by (simp add: groupBy_def)
qed

lemma caseless_compare_le: "caseless_compare a b \<le> 0 \<longleftrightarrow> caseless_key a \<le> caseless_key b"
  by (auto simp: caseless_compare_def)

lemma caseless_compare_total: "caseless_compare a b \<le> 0 \<or> caseless_compare b a \<le> 0"
  by (auto simp: caseless_compare_le)

lemma caseless_compare_trans:
  "caseless_compare a b \<le> 0 \<Longrightarrow> caseless_compare b c \<le> 0 \<Longrightarrow> caseless_compare a c \<le> 0"
  by (auto simp: caseless_compare_le)

lemma policies_enhanced:
  "map ContactPointWithMetadata.policies (enhanced ext args) =
     map (\<lambda>cp. case alertmanagerConfiguration args of
                  None \<Rightarrow> None
                | Some c \<Rightarrow>
                    Some (lookup_policies
                           (groupBy RouteReference.receiver
                              (getUsedContactPoints (alertingSimplifiedRouting ext)
                                 (computeInheritedTree ext
                                    (configured_route (alertmanagerConfiguration args)))))
                           (Receiver.name cp)))
         (contactPoints args)"
  by (simp add: enhanced_def Let_def policies_enhanceContactPoint comp_def)

lemma in_enhanced:
  assumes "e \<in> set (enhanceContactPointsWithMetadata ext args)"
  obtains cp where "cp \<in> set (contactPoints args)"
    and "ContactPointWithMetadata.name e = Receiver.name cp"
    and "ContactPointWithMetadata.policies e =
           (case alertmanagerConfiguration args of
              None \<Rightarrow> None
            | Some c \<Rightarrow>
                Some (lookup_policies
                       (groupBy RouteReference.receiver
                          (getUsedContactPoints (alertingSimplifiedRouting ext)
                             (computeInheritedTree ext
                                (configured_route (alertmanagerConfiguration args)))))
                       (Receiver.name cp)))"
  using assms
  by (auto simp: enhanceContactPointsWithMetadata_def set_array_sort enhanced_def Let_def
        name_enhanceContactPoint policies_enhanceContactPoint)

lemma policies_absent_without_configuration:
  assumes "alertmanagerConfiguration args = None"
    and "e \<in> set (enhanceContactPointsWithMetadata ext args)"
  shows "ContactPointWithMetadata.policies e = None"
  using assms(2)
proof (rule in_enhanced)
  fix cp
  assume "ContactPointWithMetadata.policies e =
           (case alertmanagerConfiguration args of
              None \<Rightarrow> None
            | Some c \<Rightarrow>
                Some (lookup_policies
                       (groupBy RouteReference.receiver
                          (getUsedContactPoints (alertingSimplifiedRouting ext)
                             (computeInheritedTree ext
                                (configured_route (alertmanagerConfiguration args)))))
                       (Receiver.name cp)))"
  then show ?thesis using assms(1) by simp
qed

lemma lookup_policies_groupBy:
  "lookup_policies (groupBy RouteReference.receiver refs) k =
     (if k \<in> RouteReference.receiver ` set refs
        then RouteReferences (filter (\<lambda>r. RouteReference.receiver r = k) refs)
      else if k \<in> set Object_prototype_keys then Object_prototype_member k
      else RouteReferences [])"
  by (simp add: lookup_policies_def groupBy_lookup)

lemma policies_grouped_with_configuration:
  assumes "alertmanagerConfiguration args = Some c"
    and "e \<in> set (enhanceContactPointsWithMetadata ext args)"
    and "ContactPointWithMetadata.name e \<notin> set Object_prototype_keys"
  shows "ContactPointWithMetadata.policies e =
           Some (RouteReferences
                  (filter (\<lambda>r. RouteReference.receiver r = ContactPointWithMetadata.name e)
                     (getUsedContactPoints (alertingSimplifiedRouting ext)
                        (computeInheritedTree ext (configured_route (Some c))))))"
  using assms(2)
proof (rule in_enhanced)
  fix cp
  assume n: "ContactPointWithMetadata.name e = Receiver.name cp"
    and "ContactPointWithMetadata.policies e =
           (case alertmanagerConfiguration args of
              None \<Rightarrow> None
            | Some c \<Rightarrow>
                Some (lookup_policies
                       (groupBy RouteReference.receiver
                          (getUsedContactPoints (alertingSimplifiedRouting ext)
                             (computeInheritedTree ext
                                (configured_route (alertmanagerConfiguration args)))))
                       (Receiver.name cp)))"
  then show ?thesis
    using assms(1,3)
    by (auto simp: lookup_policies_groupBy filter_empty_conv empty_filter_conv image_iff)
qed



lemma policies_inherited_member:
  assumes "alertmanagerConfiguration args = Some c"
    and "e \<in> set (enhanceContactPointsWithMetadata ext args)"
    and "ContactPointWithMetadata.name e \<in> set Object_prototype_keys"
    and "ContactPointWithMetadata.name e \<notin> RouteReference.receiver `
           set (getUsedContactPoints (alertingSimplifiedRouting ext)
                  (computeInheritedTree ext (configured_route (Some c))))"
  shows "ContactPointWithMetadata.policies e =
           Some (Object_prototype_member (ContactPointWithMetadata.name e))"
  using assms(2)
proof (rule in_enhanced)
  fix cp
  assume n: "ContactPointWithMetadata.name e = Receiver.name cp"
    and "ContactPointWithMetadata.policies e =
           (case alertmanagerConfiguration args of
              None \<Rightarrow> None
            | Some c \<Rightarrow>
                Some (lookup_policies
                       (groupBy RouteReference.receiver
                          (getUsedContactPoints (alertingSimplifiedRouting ext)
                             (computeInheritedTree ext
                                (configured_route (alertmanagerConfiguration args)))))
                       (Receiver.name cp)))"
  then show ?thesis
    using assms(1,3,4) by (simp add: lookup_policies_groupBy)
qed

lemma example_names:
  "map ContactPointWithMetadata.name
     (enhanceContactPointsWithMetadata example_externals
        (example_args [example_contact_point ''Zeta'' None,
                       example_contact_point ''alpha'' (Some ''first''),
                       example_contact_point ''Beta'' (Some ''''),
                       example_contact_point ''alpha'' (Some ''second'')] None)) =
   [''alpha'', ''alpha'', ''Beta'', ''Zeta'']"
  by code_simp

lemma example_ids:
  "map ContactPointWithMetadata.id
     (enhanceContactPointsWithMetadata example_externals
        (example_args [example_contact_point ''Zeta'' None,
                       example_contact_point ''alpha'' (Some ''first''),
                       example_contact_point ''Beta'' (Some ''''),
                       example_contact_point ''alpha'' (Some ''second'')] None)) =
   [''first'', ''second'', ''Beta'', ''Zeta'']"
  by code_simp

text \<open>
  C5: for every list of contact points and every combination of the optional arguments,
  present or absent, the list that \<^verbatim>\<open>enhanceContactPointsWithMetadata\<close> returns is as
  long as the list of contact points.
\<close>

theorem enhance_length:
  "length (enhanceContactPointsWithMetadata ext args) = length (contactPoints args)"
  by (simp add: enhanceContactPointsWithMetadata_def length_array_sort length_enhanced)

theorem enhance_length_witness:
  "length (enhanceContactPointsWithMetadata example_externals
        (example_args [example_contact_point ''Zeta'' None,
                       example_contact_point ''alpha'' (Some ''first''),
                       example_contact_point ''Beta'' (Some ''''),
                       example_contact_point ''alpha'' (Some ''second'')] None)) = 4"
  using enhance_length [of example_externals
        "example_args [example_contact_point ''Zeta'' None,
                       example_contact_point ''alpha'' (Some ''first''),
                       example_contact_point ''Beta'' (Some ''''),
                       example_contact_point ''alpha'' (Some ''second'')] None"]
  by simp

text \<open>
  C10: every contact point of the result carries over the name and all the other
  properties of a contact point of the input, apart from the three that are set (the id,
  the policies and the receiver configs); and each of its receiver configs is a receiver
  config of that contact point, as \<^verbatim>\<open>extractReceivers\<close> returns it, extended by the three
  metadata properties. The result lists the contact points of the input in sorted order.
\<close>

theorem enhance_frame:
  "map (\<lambda>e. (ContactPointWithMetadata.name e, ContactPointWithMetadata.rest e,
             map GrafanaManagedReceiverConfig.truncate
               (ContactPointWithMetadata.grafana_managed_receiver_configs e)))
       (enhanceContactPointsWithMetadata ext args) =
   map (\<lambda>cp. (Receiver.name cp, Receiver.rest cp, extractReceivers ext cp))
       (array_sort (\<lambda>a b. localeCompare ext (Receiver.name a) (Receiver.name b))
          (contactPoints args))"
  by (simp add: enhanceContactPointsWithMetadata_def enhanced_def Let_def array_sort_map
        name_enhanceContactPoint rest_enhanceContactPoint configs_enhanceContactPoint comp_def)

theorem enhance_frame_witness:
  "map (\<lambda>e. (ContactPointWithMetadata.name e, ContactPointWithMetadata.rest e,
             map GrafanaManagedReceiverConfig.truncate
               (ContactPointWithMetadata.grafana_managed_receiver_configs e)))
       (enhanceContactPointsWithMetadata example_externals
          (example_args [example_contact_point ''Zeta'' None,
                         example_contact_point ''alpha'' (Some ''first'')] None)) =
   [(''alpha'', (),
     [\<lparr> GrafanaManagedReceiverConfig.type = ''email'',
        GrafanaManagedReceiverConfig.settings = Some [''addresses'' \<mapsto> ''a@x.com''],
        GrafanaManagedReceiverConfig.rest = () \<rparr>]),
    (''Zeta'', (),
     [\<lparr> GrafanaManagedReceiverConfig.type = ''email'',
        GrafanaManagedReceiverConfig.settings = Some [''addresses'' \<mapsto> ''a@x.com''],
        GrafanaManagedReceiverConfig.rest = () \<rparr>])]"
proof -
  have c: "caseless_compare ''Zeta'' ''alpha'' = 1"
    by code_simp
  show ?thesis
    using enhance_frame [of example_externals
        "example_args [example_contact_point ''Zeta'' None,
                       example_contact_point ''alpha'' (Some ''first'')] None"]
    by (simp add: c)
qed

text \<open>
  C6: for a comparison \<^verbatim>\<open>localeCompare\<close> that is total and transitive, the result of
  \<^verbatim>\<open>enhanceContactPointsWithMetadata\<close> is in ascending order of the names, whatever the
  order of the input; and the contact points of one name keep the order in which they
  stand in the input.
\<close>

theorem enhance_sorted_by_name_stable:
  assumes total: "\<forall>a b. localeCompare ext a b \<le> 0 \<or> localeCompare ext b a \<le> 0"
    and trans: "\<forall>a b c. localeCompare ext a b \<le> 0 \<longrightarrow> localeCompare ext b c \<le> 0
                  \<longrightarrow> localeCompare ext a c \<le> 0"
  shows "sorted_wrt (\<lambda>a b. localeCompare ext (ContactPointWithMetadata.name a)
                                              (ContactPointWithMetadata.name b) \<le> 0)
           (enhanceContactPointsWithMetadata ext args)
       \<and> (\<forall>k. filter (\<lambda>e. ContactPointWithMetadata.name e = k)
                  (enhanceContactPointsWithMetadata ext args) =
                filter (\<lambda>e. ContactPointWithMetadata.name e = k) (enhanced ext args))"
proof
  let ?cmp = "\<lambda>a b. localeCompare ext (ContactPointWithMetadata.name a)
                                       (ContactPointWithMetadata.name b)"
  show "sorted_wrt (\<lambda>a b. ?cmp a b \<le> 0) (enhanceContactPointsWithMetadata ext args)"
    unfolding enhanceContactPointsWithMetadata_def
  proof (rule sorted_array_sort)
    show "?cmp a b \<le> 0 \<or> ?cmp b a \<le> 0" for a b
      using total by blast
    show "?cmp a b \<le> 0 \<Longrightarrow> ?cmp b c \<le> 0 \<Longrightarrow> ?cmp a c \<le> 0" for a b c
      using trans by blast
  qed
  show "\<forall>k. filter (\<lambda>e. ContactPointWithMetadata.name e = k)
                  (enhanceContactPointsWithMetadata ext args) =
                filter (\<lambda>e. ContactPointWithMetadata.name e = k) (enhanced ext args)"
  proof
    fix k
    have "localeCompare ext k k \<le> 0"
      using total by blast
    then show "filter (\<lambda>e. ContactPointWithMetadata.name e = k)
                  (enhanceContactPointsWithMetadata ext args) =
                filter (\<lambda>e. ContactPointWithMetadata.name e = k) (enhanced ext args)"
      unfolding enhanceContactPointsWithMetadata_def
      by (intro filter_array_sort) simp
  qed
qed

text \<open>
  The example sorts \<open>Zeta\<close>, \<open>alpha\<close>, \<open>Beta\<close>, \<open>alpha\<close> under the collation of the
  examples, which is total and transitive; the ids tell the two contact points named
  \<open>alpha\<close> apart.
\<close>

theorem enhance_sorted_by_name_stable_witness:
  "sorted_wrt (\<lambda>a b. caseless_compare (ContactPointWithMetadata.name a)
                                          (ContactPointWithMetadata.name b) \<le> 0)
       (enhanceContactPointsWithMetadata example_externals
          (example_args [example_contact_point ''Zeta'' None,
                         example_contact_point ''alpha'' (Some ''first''),
                         example_contact_point ''Beta'' (Some ''''),
                         example_contact_point ''alpha'' (Some ''second'')] None))
   \<and> filter (\<lambda>e. ContactPointWithMetadata.name e = ''alpha'')
       (enhanceContactPointsWithMetadata example_externals
          (example_args [example_contact_point ''Zeta'' None,
                         example_contact_point ''alpha'' (Some ''first''),
                         example_contact_point ''Beta'' (Some ''''),
                         example_contact_point ''alpha'' (Some ''second'')] None)) =
     filter (\<lambda>e. ContactPointWithMetadata.name e = ''alpha'')
       (enhanced example_externals
          (example_args [example_contact_point ''Zeta'' None,
                         example_contact_point ''alpha'' (Some ''first''),
                         example_contact_point ''Beta'' (Some ''''),
                         example_contact_point ''alpha'' (Some ''second'')] None))
   \<and> map ContactPointWithMetadata.name
       (enhanceContactPointsWithMetadata example_externals
          (example_args [example_contact_point ''Zeta'' None,
                         example_contact_point ''alpha'' (Some ''first''),
                         example_contact_point ''Beta'' (Some ''''),
                         example_contact_point ''alpha'' (Some ''second'')] None)) =
     [''alpha'', ''alpha'', ''Beta'', ''Zeta'']
   \<and> map ContactPointWithMetadata.id
       (enhanceContactPointsWithMetadata example_externals
          (example_args [example_contact_point ''Zeta'' None,
                         example_contact_point ''alpha'' (Some ''first''),
                         example_contact_point ''Beta'' (Some ''''),
                         example_contact_point ''alpha'' (Some ''second'')] None)) =
     [''first'', ''second'', ''Beta'', ''Zeta'']"
proof -
  have total: "\<forall>a b. caseless_compare a b \<le> 0 \<or> caseless_compare b a \<le> 0"
    using caseless_compare_total by blast
  have trans: "\<forall>a b c. caseless_compare a b \<le> 0 \<longrightarrow> caseless_compare b c \<le> 0
          \<longrightarrow> caseless_compare a c \<le> 0"
    using caseless_compare_trans by blast
  show ?thesis
    using total trans example_names example_ids
      enhance_sorted_by_name_stable [of example_externals
        "example_args [example_contact_point ''Zeta'' None,
                       example_contact_point ''alpha'' (Some ''first''),
                       example_contact_point ''Beta'' (Some ''''),
                       example_contact_point ''alpha'' (Some ''second'')] None"]
    by simp
qed

text \<open>
  C2 fails for a contact point whose name is a property name of \<^verbatim>\<open>Object.prototype\<close> and
  that no route refers to: with a configuration supplied, the policies of the contact
  point named \<^verbatim>\<open>toString\<close> are not the empty list but the inherited member.
\<close>

theorem policies_of_contact_point_named_toString:
  "map ContactPointWithMetadata.policies
     (enhanceContactPointsWithMetadata example_externals
        (example_args [example_contact_point ''toString'' None,
                       example_contact_point ''grafana-default-email'' None]
           (Some \<lparr> alertmanager_config =
                     Some \<lparr> AlertmanagerConfig.route =
                              Some (Route (Some ''grafana-default-email'') None None) \<rparr> \<rparr>))) =
   [Some (RouteReferences
            [\<lparr> RouteReference.receiver = ''grafana-default-email'',
               RouteReference.route = \<lparr> RouteReferenceRoute.type = normal \<rparr> \<rparr>]),
    Some (Object_prototype_member ''toString'')]"
  by code_simp

end
